theory Spec2Isabelle
  imports Main "HOL-Library.Sublist" "HOL-Library.AList"
begin

section \<open>JavaScript values\<close>

text \<open>
  The values that the clients keep in the replicated store are JSON trees. Numbers are
  modelled as integers (the programs store counters, ranks and stone codes only). An array
  is represented as an object keyed by its indices, which is how property access,
  \<^verbatim>\<open>typeof\<close> and object spread see it. The order of the fields of an object
  is the order of insertion. A property that is absent is \<open>None\<close> in a lookup;
  \<open>JUndef\<close> is the value \<^verbatim>\<open>undefined\<close> itself, as read from a hole or past the
  end of an array. Only own properties are modelled: the keys in use (ids, field names,
  indices) are taken not to be names that every object inherits, such as
  \<^verbatim>\<open>constructor\<close> or \<^verbatim>\<open>toString\<close>.
\<close>

datatype jsval =
    JUndef
  | JNull
  | JBool bool
  | JNum int
  | JStr string
  | JObj "(string \<times> jsval) list"

type_synonym fields = "(string \<times> jsval) list"

text \<open>Truthiness, as used by \<^verbatim>\<open>!x\<close>, \<^verbatim>\<open>x || y\<close> and \<^verbatim>\<open>if (x)\<close>.\<close>

fun truthy :: "jsval \<Rightarrow> bool" where
  "truthy JUndef = False"
| "truthy JNull = False"
| "truthy (JBool b) = b"
| "truthy (JNum n) = (n \<noteq> 0)"
| "truthy (JStr s) = (s \<noteq> [])"
| "truthy (JObj fs) = True"

text \<open>\<^verbatim>\<open>x || y\<close>, and the value of a lookup that may find nothing.\<close>

definition js_or :: "jsval \<Rightarrow> jsval \<Rightarrow> jsval" where
  "js_or x y = (if truthy x then x else y)"

definition or_undef :: "jsval option \<Rightarrow> jsval" where
  "or_undef x = (case x of None \<Rightarrow> JUndef | Some v \<Rightarrow> v)"

text \<open>Decimal rendering of an index, as in a template literal or an array index key.\<close>

definition digit_char :: "nat \<Rightarrow> char" where
  "digit_char d = ''0123456789'' ! d"

function string_of_nat :: "nat \<Rightarrow> string" where
  "string_of_nat n =
     (if n < 10 then [digit_char n] else string_of_nat (n div 10) @ [digit_char (n mod 10)])"
  by pat_completeness auto
termination
  by (relation "measure id") auto

declare string_of_nat.simps [simp del]

text \<open>
  The own enumerable properties that \<^verbatim>\<open>{...x}\<close> copies: the fields of an object,
  the indexed characters of a string, nothing for the other primitives.
\<close>

fun own_entries :: "jsval \<Rightarrow> fields" where
  "own_entries (JObj fs) = fs"
| "own_entries (JStr s) = map (\<lambda>(i, c). (string_of_nat i, JStr [c])) (enumerate 0 s)"
| "own_entries v = []"

text \<open>
  \<^verbatim>\<open>obj[k] = v\<close>: an existing key keeps its place, a new key goes last. This is
  \<^const>\<open>AList.update\<close>. \<^verbatim>\<open>delete obj[k]\<close> is \<^const>\<open>AList.delete\<close>.
  \<^verbatim>\<open>{...a, ...b}\<close> copies \<open>a\<close> and then assigns the entries of \<open>b\<close> in order.
\<close>

definition spread :: "fields \<Rightarrow> fields \<Rightarrow> fields" where
  "spread a b = foldl (\<lambda>acc (k, v). AList.update k v acc) a b"

section \<open>The bundled local store: \<^verbatim>\<open>LocalDatabase\<close>\<close>

text \<open>
  \<^verbatim>\<open>path.split('/').filter(k => k)\<close>: the non-empty segments of a path string.
\<close>

fun split_on :: "char \<Rightarrow> string \<Rightarrow> string list" where
  "split_on c [] = [[]]"
| "split_on c (x # xs) =
     (if x = c then [] # split_on c xs
      else (case split_on c xs of [] \<Rightarrow> [[x]] | w # ws \<Rightarrow> (x # w) # ws))"

definition path_keys :: "string \<Rightarrow> string list" where
  "path_keys path = filter (\<lambda>k. k \<noteq> []) (split_on CHR ''/'' path)"

text \<open>
  The store keeps its data (the object parsed from local storage, \<^verbatim>\<open>{}\<close> at first) and
  a map from subscribed path to the set of callbacks, both in insertion order. A callback
  is an opaque closure, identified by a number; invoking it is recorded as a call with the
  value its snapshot carries.
\<close>

record local_db =
  data :: fields
  listeners :: "(string \<times> nat list) list"

type_synonym call = "nat \<times> jsval option"

text \<open>
  \<^verbatim>\<open>get(path)\<close>: walk the keys; a missing, null or primitive node on the way gives
  \<^verbatim>\<open>undefined\<close>.
\<close>

fun get_from :: "jsval option \<Rightarrow> string list \<Rightarrow> jsval option" where
  "get_from cur [] = cur"
| "get_from cur (k # ks) =
     (case cur of
        Some (JObj fs) \<Rightarrow> get_from (map_of fs k) ks
      | _ \<Rightarrow> None)"

definition db_get :: "local_db \<Rightarrow> string \<Rightarrow> jsval option" where
  "db_get db path = get_from (Some (JObj (data db))) (path_keys path)"

text \<open>
  \<^verbatim>\<open>notifyListeners(path)\<close>: every listener path that is a string prefix of the written
  path, or that the written path is a string prefix of, has each of its callbacks invoked
  with the value now stored at the listener path.
\<close>

definition notifyListeners :: "local_db \<Rightarrow> string \<Rightarrow> call list" where
  "notifyListeners db path =
     concat (map (\<lambda>(lp, cbs).
       if prefix lp path \<or> prefix path lp then map (\<lambda>cb. (cb, db_get db lp)) cbs else [])
       (listeners db))"

text \<open>
  \<^verbatim>\<open>set(path, value)\<close>: an intermediate key that is missing, falsy or not an object
  is replaced by \<^verbatim>\<open>{}\<close>; the last key receives the value. With no key at all the last
  key is \<^verbatim>\<open>keys[-1]\<close>, that is \<^verbatim>\<open>undefined\<close>, and the value lands in the root's
  property named \<^verbatim>\<open>"undefined"\<close>.
\<close>

fun set_keys :: "string list \<Rightarrow> jsval \<Rightarrow> fields \<Rightarrow> fields" where
  "set_keys [] v fs = AList.update ''undefined'' v fs"
| "set_keys [k] v fs = AList.update k v fs"
| "set_keys (k # k' # ks) v fs =
     (case map_of fs k of
        Some (JObj sub) \<Rightarrow> AList.update k (JObj (set_keys (k' # ks) v sub)) fs
      | _ \<Rightarrow> AList.update k (JObj (set_keys (k' # ks) v [])) fs)"

definition db_set :: "local_db \<Rightarrow> string \<Rightarrow> jsval \<Rightarrow> local_db \<times> call list" where
  "db_set db path v =
     (let db' = db\<lparr>data := set_keys (path_keys path) v (data db)\<rparr>
      in (db', notifyListeners db' path))"

text \<open>
  \<^verbatim>\<open>update(path, updates)\<close>: \<^verbatim>\<open>set(path, {...(get(path) || {}), ...updates})\<close>.
\<close>

definition db_update :: "local_db \<Rightarrow> string \<Rightarrow> fields \<Rightarrow> local_db \<times> call list" where
  "db_update db path updates =
     db_set db path
       (JObj (spread (own_entries (js_or (or_undef (db_get db path)) (JObj []))) updates))"

text \<open>
  What \<^verbatim>\<open>remove\<close> meets on its walk. Reading \<^verbatim>\<open>current[key]\<close> finds an own property:
  a field of an object, or a character or the length of a string. Deleting such a property
  from an object removes it; a string's characters and length cannot be deleted, and the
  body of a class is strict code, so \<^verbatim>\<open>delete\<close> raises a TypeError there; deleting
  anything else changes nothing.
\<close>

datatype removal = Returned | Threw | Removed jsval

definition own_prop :: "jsval \<Rightarrow> string \<Rightarrow> jsval option" where
  "own_prop cur k =
     (case cur of
        JObj fs \<Rightarrow> map_of fs k
      | JStr s \<Rightarrow>
          if k = ''length'' then Some (JNum (int (length s)))
          else map_of (own_entries (JStr s)) k
      | _ \<Rightarrow> None)"

definition delete_prop :: "jsval \<Rightarrow> string \<Rightarrow> removal" where
  "delete_prop cur k =
     (case cur of
        JObj fs \<Rightarrow> Removed (JObj (AList.delete k fs))
      | JStr s \<Rightarrow> if own_prop cur k = None then Removed cur else Threw
      | _ \<Rightarrow> Removed cur)"

definition put_prop :: "jsval \<Rightarrow> string \<Rightarrow> jsval \<Rightarrow> jsval" where
  "put_prop cur k v = (case cur of JObj fs \<Rightarrow> JObj (AList.update k v fs) | _ \<Rightarrow> cur)"

text \<open>
  \<^verbatim>\<open>remove(path)\<close>: returns at once, before saving or notifying, when an intermediate
  key is missing or falsy. Otherwise the last key (\<^verbatim>\<open>undefined\<close> when there is no key)
  is deleted from the node reached, and the result is the root after the deletion. When
  the call returns early or raises, nothing has been saved and no listener is notified.
\<close>

fun remove_keys :: "string list \<Rightarrow> jsval \<Rightarrow> removal" where
  "remove_keys [] cur = delete_prop cur ''undefined''"
| "remove_keys [k] cur = delete_prop cur k"
| "remove_keys (k # k' # ks) cur =
     (case own_prop cur k of
        None \<Rightarrow> Returned
      | Some v \<Rightarrow>
          if truthy v then
            (case remove_keys (k' # ks) v of
               Removed v' \<Rightarrow> Removed (put_prop cur k v')
             | r \<Rightarrow> r)
          else Returned)"



text \<open>The object found under a key, or the empty object that \<^verbatim>\<open>set\<close> puts there.\<close>

definition sub_of :: "fields \<Rightarrow> string \<Rightarrow> fields" where
  "sub_of fs k = (case map_of fs k of Some (JObj sub) \<Rightarrow> sub | _ \<Rightarrow> [])"




section \<open>Omok: the board and its two store encodings\<close>

text \<open>
  A board is an array of rows of cells; a cell is \<^verbatim>\<open>0\<close> (empty), \<^verbatim>\<open>'black'\<close> or
  \<^verbatim>\<open>'white'\<close>. The grid is 15 by 15.
\<close>

type_synonym board = "jsval list list"

definition BOARD_SIZE :: nat where
  "BOARD_SIZE = 15"

definition EMPTY :: jsval where
  "EMPTY = JNum 0"

definition BLACK :: jsval where
  "BLACK = JStr ''black''"

definition WHITE :: jsval where
  "WHITE = JStr ''white''"

text \<open>Reading an array element: past the end the value is \<^verbatim>\<open>undefined\<close>.\<close>

definition js_nth :: "jsval list \<Rightarrow> nat \<Rightarrow> jsval" where
  "js_nth xs i = (if i < length xs then xs ! i else JUndef)"

text \<open>
  Writing an array element: past the end the array grows, the gap being holes that read
  as \<^verbatim>\<open>undefined\<close>.
\<close>

definition js_array_set :: "jsval list \<Rightarrow> nat \<Rightarrow> jsval \<Rightarrow> jsval list" where
  "js_array_set xs i v =
     (if i < length xs then xs[i := v] else xs @ replicate (i - length xs) JUndef @ [v])"

text \<open>
  \<^verbatim>\<open>initBoard\<close> and the empty board that both decoders start from.
\<close>

definition empty_board :: board where
  "empty_board = map (\<lambda>y. map (\<lambda>x. EMPTY) [0..<BOARD_SIZE]) [0..<BOARD_SIZE]"

text \<open>
  \<^verbatim>\<open>flattenBoard(board)\<close> (omok.js): the cells row by row. Reading
  \<^verbatim>\<open>board[y][x]\<close> throws a TypeError when the row \<open>y\<close> does not exist (\<open>None\<close>), and
  yields \<^verbatim>\<open>undefined\<close> when the row is too short.
\<close>

definition flattenBoard :: "board \<Rightarrow> jsval list option" where
  "flattenBoard board =
     (if length board < BOARD_SIZE then None
      else Some (concat (map (\<lambda>y. map (\<lambda>x. js_nth (board ! y) x) [0..<BOARD_SIZE])
                          [0..<BOARD_SIZE])))"

text \<open>
  \<^verbatim>\<open>unflattenBoard(flat)\<close> (omok.js). The argument is \<open>None\<close> when it is falsy or
  not an array, and the result is then the empty board. Otherwise cell \<open>(x, y)\<close> is
  \<^verbatim>\<open>flat[y * 15 + x] || 0\<close>.
\<close>

definition unflattenBoard :: "jsval list option \<Rightarrow> board" where
  "unflattenBoard flat =
     (case flat of
        None \<Rightarrow> empty_board
      | Some fl \<Rightarrow>
          map (\<lambda>y. map (\<lambda>x. js_or (js_nth fl (y * BOARD_SIZE + x)) EMPTY) [0..<BOARD_SIZE])
            [0..<BOARD_SIZE])"

text \<open>The key of a stone in the sparse object: \<^verbatim>\<open>`${x}_${y}`\<close>.\<close>

definition stone_key :: "nat \<Rightarrow> nat \<Rightarrow> string" where
  "stone_key x y = string_of_nat x @ ''_'' @ string_of_nat y"

text \<open>
  \<^verbatim>\<open>encodeBoard(board)\<close> (the later omok source): black stones are stored as 1, white
  stones as 2, under the key of their position; nothing is stored for any other cell.
\<close>

definition encode_cell :: "board \<Rightarrow> nat \<Rightarrow> fields \<Rightarrow> nat \<Rightarrow> fields" where
  "encode_cell board y sparse x =
     (let cell = js_nth (board ! y) x in
      if cell = BLACK then AList.update (stone_key x y) (JNum 1) sparse
      else if cell = WHITE then AList.update (stone_key x y) (JNum 2) sparse
      else sparse)"

definition encodeBoard :: "board \<Rightarrow> fields option" where
  "encodeBoard board =
     (if length board < BOARD_SIZE then None
      else Some (foldl (\<lambda>sparse y. foldl (encode_cell board y) sparse [0..<BOARD_SIZE])
                   [] [0..<BOARD_SIZE]))"

text \<open>
  \<^verbatim>\<open>Number(s)\<close> as an array index. The empty string is 0 and a string of decimal
  digits is its value; \<^verbatim>\<open>undefined\<close> and every other string are taken to be no
  index (signs, blanks, fractions, exponents and hexadecimal spellings are not modelled).
\<close>

definition is_digit :: "char \<Rightarrow> bool" where
  "is_digit c \<longleftrightarrow> c \<in> set ''0123456789''"

definition digit_val :: "char \<Rightarrow> nat" where
  "digit_val c = length (takeWhile (\<lambda>d. d \<noteq> c) ''0123456789'')"

definition js_index :: "string option \<Rightarrow> nat option" where
  "js_index s =
     (case s of
        None \<Rightarrow> None
      | Some t \<Rightarrow>
          if list_all is_digit t then Some (foldl (\<lambda>a c. 10 * a + digit_val c) 0 t)
          else None)"

text \<open>
  One turn of the loop of \<^verbatim>\<open>decodeBoard\<close>: the key is split at underscores, its
  first two parts are the column and the row. Only the values 1 and 2 touch the board.
  \<^verbatim>\<open>board[y][x] = ...\<close> throws a TypeError (\<open>None\<close>) when \<open>y\<close> is not the index of
  a row; when \<open>x\<close> is not an index the assignment makes a property that no cell shows.
\<close>

definition decode_entry :: "board option \<Rightarrow> string \<times> jsval \<Rightarrow> board option" where
  "decode_entry acc e =
     (case acc of
        None \<Rightarrow> None
      | Some board \<Rightarrow>
          (let parts = split_on CHR ''_'' (fst e);
               x = js_index (if 0 < length parts then Some (parts ! 0) else None);
               y = js_index (if 1 < length parts then Some (parts ! 1) else None);
               put = (\<lambda>colour.
                 (case y of
                    None \<Rightarrow> None
                  | Some yi \<Rightarrow>
                      if yi < length board then
                        (case x of
                           None \<Rightarrow> Some board
                         | Some xi \<Rightarrow> Some (board[yi := js_array_set (board ! yi) xi colour]))
                      else None))
           in if snd e = JNum 1 then put BLACK
              else if snd e = JNum 2 then put WHITE
              else Some board))"

text \<open>
  \<^verbatim>\<open>decodeBoard(sparse)\<close>: an empty board, then the stored stones when the argument
  is a non-null object.
\<close>

definition decodeBoard :: "jsval \<Rightarrow> board option" where
  "decodeBoard sparse =
     (case sparse of
        JObj fs \<Rightarrow> foldl decode_entry (Some empty_board) fs
      | _ \<Rightarrow> Some empty_board)"

text \<open>A board on the fixed grid whose cells are empty, black or white.\<close>

definition valid_board :: "board \<Rightarrow> bool" where
  "valid_board b \<longleftrightarrow>
     length b = BOARD_SIZE \<and>
     list_all (\<lambda>row. length row = BOARD_SIZE \<and>
                list_all (\<lambda>c. c = EMPTY \<or> c = BLACK \<or> c = WHITE) row) b"

text \<open>Auxiliary notions for the round trip of the sparse encoding.\<close>

definition grid :: "board \<Rightarrow> bool" where
  "grid b \<longleftrightarrow> length b = BOARD_SIZE \<and> (\<forall>r \<in> set b. length r = BOARD_SIZE)"

definition stone_colour :: "jsval \<Rightarrow> jsval option" where
  "stone_colour v = (if v = JNum 1 then Some BLACK else if v = JNum 2 then Some WHITE else None)"

definition stone_code :: "jsval \<Rightarrow> jsval option" where
  "stone_code c = (if c = BLACK then Some (JNum 1) else if c = WHITE then Some (JNum 2) else None)"

definition good_entries :: "fields \<Rightarrow> bool" where
  "good_entries es \<longleftrightarrow> distinct (map fst es) \<and>
     (\<forall>(k, v) \<in> set es. \<exists>x y. x < BOARD_SIZE \<and> y < BOARD_SIZE \<and> k = stone_key x y \<and>
        stone_colour v \<noteq> None)"

text \<open>A board with a black stone at (7, 7) and a white stone at (8, 7).\<close>

definition two_stones :: board where
  "two_stones =
     (empty_board[7 := (empty_board ! 7)[7 := BLACK]])[7 := ((empty_board ! 7)[7 := BLACK])[8 := WHITE]]"

section \<open>Tetris: one client and the shared round\<close>

text \<open>
  Only the fields that take part in initialisation, ranking and synchronisation are kept:
  boards, pieces, colours and everything drawn on screen are left out. A field of a record
  in the store may be absent (\<open>None\<close>), because a field patch creates the record it
  addresses with the patched fields only.
\<close>

text \<open>A player record under \<^verbatim>\<open>game/players/<id>\<close> in the store.\<close>

record splayer =
  sp_alive :: "bool option"
  sp_rank :: "int option"
  sp_score :: "int option"
  sp_lines :: "int option"

text \<open>An entry of the final ranking list.\<close>

record ranking =
  rk_id :: string
  rk_name :: string
  rk_rank :: int
  rk_score :: "int option"


text \<open>A member of the room, and the room as a snapshot of the room path shows it.\<close>

record room_player =
  rp_id :: string
  rp_name :: string


text \<open>An entry of \<^verbatim>\<open>gameState.players\<close>, the client's picture of one player.\<close>

record tplayer =
  tp_id :: string
  tp_name :: string
  tp_alive :: "bool option"
  tp_score :: "int option"
  tp_lines :: "int option"
  tp_rank :: int

text \<open>The part of \<^verbatim>\<open>gameState\<close> that the handlers below read and write.\<close>

record tclient =
  playerId :: string
  isHost :: bool
  gameOver :: bool
  players :: "(string \<times> tplayer) list"
  garbageQueue :: int
  score :: int
  lines :: int

text \<open>
  The writes a client sends to the store, each addressed below the room's
  \<^verbatim>\<open>game\<close> path unless said otherwise:
  \<^item> \<open>SetGame ps\<close>: \<^verbatim>\<open>set(gameRef, {players: ps, garbage: {}, gameFinished: false, rankings: [], ...})\<close>;
  \<^item> \<open>UpdatePlayer id patch\<close>: \<^verbatim>\<open>update(game/players/<id>, patch)\<close>, the patch holding
    the fields that are not \<open>None\<close>;
  \<^item> \<open>FinishGame rs\<close>: \<^verbatim>\<open>update(gameRef, {gameFinished: true, rankings: rs})\<close>;
  \<^item> \<open>SetGarbage id n\<close>: \<^verbatim>\<open>set(game/garbage/<id>, n)\<close>;
  \<^item> \<open>ClearGame\<close>: \<^verbatim>\<open>set(gameRef, null)\<close>;
  \<^item> \<open>ResetRoom\<close>: the writes of \<^verbatim>\<open>resetGame\<close> to the room's status and player list.
\<close>

datatype twrite =
    SetGame "(string \<times> splayer) list"
  | UpdatePlayer string splayer
  | FinishGame "ranking list"
  | SetGarbage string int
  | ClearGame
  | ResetRoom

text \<open>\<^verbatim>\<open>p => p.alive\<close>: an absent flag is falsy.\<close>

definition is_alive :: "tplayer \<Rightarrow> bool" where
  "is_alive p \<longleftrightarrow> tp_alive p = Some True"


text \<open>
  The room listener adds a player it does not know yet, alive and with rank 0.
\<close>

definition add_room_player :: "(string \<times> tplayer) list \<Rightarrow> room_player \<Rightarrow> (string \<times> tplayer) list" where
  "add_room_player ps rp =
     (case map_of ps (rp_id rp) of
        Some p \<Rightarrow> ps
      | None \<Rightarrow>
          AList.update (rp_id rp)
            \<lparr>tp_id = rp_id rp, tp_name = rp_name rp, tp_alive = Some True,
             tp_score = Some 0, tp_lines = Some 0, tp_rank = 0\<rparr> ps)"




text \<open>
  \<^verbatim>\<open>handleGameOver(rankings)\<close> does nothing for an empty list; otherwise the client's
  round is over.
\<close>

definition handleGameOver :: "tclient \<Rightarrow> ranking list \<Rightarrow> tclient" where
  "handleGameOver c rs = (if rs = [] then c else c\<lparr>gameOver := True\<rparr>)"


text \<open>
  \<^verbatim>\<open>finishGame\<close>: the players ordered by rank (the sort is stable) become the ranking
  list, written with \<^verbatim>\<open>gameFinished: true\<close>.
\<close>

definition finishGame :: "tclient \<Rightarrow> twrite list" where
  "finishGame c =
     [FinishGame
        (map (\<lambda>p. \<lparr>rk_id = tp_id p, rk_name = tp_name p, rk_rank = tp_rank p, rk_score = tp_score p\<rparr>)
           (sort_key tp_rank (map snd (players c))))]"

text \<open>A patch that names no field, and setting one field of a known player.\<close>

definition no_patch :: splayer where
  "no_patch = \<lparr>sp_alive = None, sp_rank = None, sp_score = None, sp_lines = None\<rparr>"

definition set_local :: "string \<Rightarrow> (tplayer \<Rightarrow> tplayer) \<Rightarrow> tclient \<Rightarrow> tclient" where
  "set_local pid f c =
     (case map_of (players c) pid of
        None \<Rightarrow> c
      | Some p \<Rightarrow> c\<lparr>players := AList.update pid (f p) (players c)\<rparr>)"





text \<open>Everything that can make a Tetris client write to the store.\<close>





definition is_finish_write :: "twrite \<Rightarrow> bool" where
  "is_finish_write w = (case w of FinishGame rs \<Rightarrow> True | _ \<Rightarrow> False)"



text \<open>The write of a client's own death with a rank, and of a rank alone.\<close>

definition death_write :: "string \<Rightarrow> int \<Rightarrow> twrite" where
  "death_write pid r = UpdatePlayer pid (no_patch\<lparr>sp_alive := Some False, sp_rank := Some r\<rparr>)"

definition rank_write :: "string \<Rightarrow> int \<Rightarrow> twrite" where
  "rank_write pid r = UpdatePlayer pid (no_patch\<lparr>sp_rank := Some r\<rparr>)"


definition local_alive :: "tclient \<Rightarrow> string \<Rightarrow> bool option option" where
  "local_alive c pid = map_option tp_alive (map_of (players c) pid)"









section \<open>Omok: start-up, synchronisation and leaving the page\<close>

text \<open>
  The client state of the Omok page, as far as start-up, host election and leaving are
  concerned. \<open>connected\<close> says that \<^verbatim>\<open>db\<close>, \<^verbatim>\<open>roomRef\<close> and \<^verbatim>\<open>gameRef\<close> are
  set. The two \<open>Attached\<close> flags record the subscriptions to the room and the game path.
\<close>

record oclient =
  o_roomId :: "string option"
  o_playerId :: string
  o_playerName :: string
  o_isHost :: bool
  o_gameOver :: bool
  opponentId :: "string option"
  connected :: bool
  roomListenerAttached :: bool
  gameListenerAttached :: bool
  isInitializing :: bool

text \<open>
  A snapshot of the room path: the host, the members (id and name; \<open>None\<close> when
  \<^verbatim>\<open>roomData.players\<close> is missing) and the \<^verbatim>\<open>game\<close> subtree (an object when it
  exists).
\<close>

record oroom =
  o_hostId :: string
  o_members :: "(string \<times> string) list option"
  o_game :: "fields option"

text \<open>
  The writes of the Omok client that matter here: the initial game
  (\<^verbatim>\<open>set(gameRef, {players, board: {}, currentTurn: 'black', gameOver: false, ...})\<close>, with
  the id and name of the black and of the white player) and the defeat
  (\<^verbatim>\<open>update(gameRef, {gameOver: true, winner})\<close>).
\<close>

datatype owrite =
    OInitGame "string \<times> string" "string \<times> string"
  | ODefeat string


text \<open>\<^verbatim>\<open>String(name || 'Player n')\<close>.\<close>

definition name_or :: "string \<Rightarrow> string \<Rightarrow> string" where
  "name_or name dflt = (if name = [] then dflt else name)"

text \<open>
  \<^verbatim>\<open>initializeGame\<close> (later source), run to completion: \<open>read\<close> is what
  \<^verbatim>\<open>get(roomRef)\<close> returns and \<open>swap\<close> the outcome of the random shuffle of the two
  player ids. A call while another one is running returns at once; every other path ends
  with the flag cleared.
\<close>

definition initializeGame :: "oclient \<Rightarrow> oroom option \<Rightarrow> bool \<Rightarrow> oclient \<times> owrite list" where
  "initializeGame c read swap =
     (if isInitializing c then (c, [])
      else
        (let c' = c\<lparr>isInitializing := False\<rparr> in
         if \<not> connected c then (c', [])
         else if o_roomId c = None \<or> o_roomId c = Some [] then (c', [])
         else
           (case read of
              None \<Rightarrow> (c', [])
            | Some roomData \<Rightarrow>
                (case o_members roomData of
                   None \<Rightarrow> (c', [])
                 | Some ms \<Rightarrow>
                     (case (if swap then rev ms else ms) of
                        [p1, p2] \<Rightarrow>
                          (c', [OInitGame (fst p1, name_or (snd p1) ''Player 1'')
                                          (fst p2, name_or (snd p2) ''Player 2'')])
                      | _ \<Rightarrow> (c', []))))))"


text \<open>
  \<^verbatim>\<open>setupFirebaseSync\<close> subscribes to the room and to the game path, each once. The
  earlier source subscribes to the game path only.
\<close>

definition setupFirebaseSync :: "oclient \<Rightarrow> oclient" where
  "setupFirebaseSync c = c\<lparr>roomListenerAttached := True, gameListenerAttached := True\<rparr>"

definition subscribe_game_only :: "oclient \<Rightarrow> oclient" where
  "subscribe_game_only c = c\<lparr>gameListenerAttached := True\<rparr>"

text \<open>
  The browser's local storage, and what a page start finds: the \<^verbatim>\<open>room\<close> parameter of
  the URL, the storage, the id that \<^verbatim>\<open>generateId\<close> would make, and whether
  \<^verbatim>\<open>getDatabase()\<close> succeeds.
\<close>

type_synonym local_storage = "string \<Rightarrow> string option"

record page_start =
  url_room :: "string option"
  storage :: local_storage
  generated_id :: string
  db_ok :: bool

text \<open>What a page start leaves: the storage, the client, its writes, and the page it
  navigates away to, if any.\<close>

record start_result =
  storage_after :: local_storage
  client_after :: oclient
  writes_made :: "owrite list"
  navigates_to :: "string option"

definition blank_client :: oclient where
  "blank_client =
     \<lparr>o_roomId = None, o_playerId = [], o_playerName = [], o_isHost = False,
      o_gameOver = False, opponentId = None, connected = False,
      roomListenerAttached = False, gameListenerAttached = False, isInitializing = False\<rparr>"

text \<open>
  \<^verbatim>\<open>Storage.getPlayerId()\<close> makes and stores an id when none is stored;
  \<^verbatim>\<open>Storage.getPlayerName()\<close> is the stored name or the empty string.
\<close>

definition getPlayerId :: "page_start \<Rightarrow> string \<times> local_storage" where
  "getPlayerId p =
     (case storage p ''playerId'' of
        None \<Rightarrow> (generated_id p, (storage p)(''playerId'' \<mapsto> generated_id p))
      | Some i \<Rightarrow>
          if i = [] then (generated_id p, (storage p)(''playerId'' \<mapsto> generated_id p))
          else (i, storage p))"

definition getPlayerName :: "local_storage \<Rightarrow> string" where
  "getPlayerName st = (case st ''playerName'' of None \<Rightarrow> [] | Some n \<Rightarrow> n)"

text \<open>
  \<^verbatim>\<open>init\<close> of the Omok page. Without a room parameter, or without a player id and
  name, it leaves for another page. Otherwise, when the database is reached, it stores
  \<^verbatim>\<open>game_in_progress = 'true'\<close> with the room and game ids and subscribes
  (\<open>subscribe\<close> is the subscription step of the source at hand). The stored flag is
  written, never read.
\<close>

definition omok_init :: "(oclient \<Rightarrow> oclient) \<Rightarrow> page_start \<Rightarrow> start_result" where
  "omok_init subscribe p =
     (case url_room p of
        None \<Rightarrow>
          \<lparr>storage_after = storage p, client_after = blank_client, writes_made = [],
           navigates_to = Some ''lobby.html''\<rparr>
      | Some room \<Rightarrow>
          if room = [] then
            \<lparr>storage_after = storage p, client_after = blank_client\<lparr>o_roomId := Some room\<rparr>,
             writes_made = [], navigates_to = Some ''lobby.html''\<rparr>
          else
            (let (pid, st1) = getPlayerId p;
                 pname = getPlayerName st1;
                 c1 = blank_client\<lparr>o_roomId := Some room, o_playerId := pid, o_playerName := pname\<rparr>
             in if pid = [] \<or> pname = [] then
                  \<lparr>storage_after = st1, client_after = c1, writes_made = [],
                   navigates_to = Some ''index.html''\<rparr>
                else if db_ok p then
                  \<lparr>storage_after = st1(''game_in_progress'' \<mapsto> ''true'',
                                       ''current_room_id'' \<mapsto> room,
                                       ''current_game_id'' \<mapsto> ''omok''),
                   client_after = subscribe (c1\<lparr>connected := True\<rparr>),
                   writes_made = [], navigates_to = None\<rparr>
                else
                  \<lparr>storage_after = st1, client_after = c1, writes_made = [],
                   navigates_to = None\<rparr>))"

text \<open>
  \<^verbatim>\<open>handleBeforeUnload\<close> (later source): a round that is not over is given to the
  opponent, when the client is connected and knows the opponent; the three stored items
  are removed and the subscriptions dropped.
\<close>

definition handleBeforeUnload :: "oclient \<Rightarrow> local_storage \<Rightarrow> oclient \<times> local_storage \<times> owrite list" where
  "handleBeforeUnload c st =
     (let ws = (if \<not> o_gameOver c \<and> connected c then
                  (case opponentId c of None \<Rightarrow> [] | Some opp \<Rightarrow> [ODefeat opp])
                else []);
          st' = st(''game_in_progress'' := None, ''current_room_id'' := None,
                   ''current_game_id'' := None);
          c' = (if connected c
                then c\<lparr>roomListenerAttached := False, gameListenerAttached := False\<rparr>
                else c)
      in (c'\<lparr>isInitializing := False\<rparr>, st', ws))"

text \<open>
  A page start gets as far as subscribing: there is a room parameter, a player id and a
  name, and the database is reached.
\<close>

definition joins :: "page_start \<Rightarrow> bool" where
  "joins p \<longleftrightarrow>
     (case url_room p of None \<Rightarrow> False | Some room \<Rightarrow> room \<noteq> []) \<and>
     fst (getPlayerId p) \<noteq> [] \<and> getPlayerName (snd (getPlayerId p)) \<noteq> [] \<and> db_ok p"

text \<open>The same page start with the stored flag replaced (\<open>None\<close>: removed).\<close>

definition with_flag :: "page_start \<Rightarrow> string option \<Rightarrow> page_start" where
  "with_flag p v = p\<lparr>storage := (storage p)(''game_in_progress'' := v)\<rparr>"

text \<open>A page reloaded while the stored flag of a round in progress is still set.\<close>

definition reload_with_flag :: page_start where
  "reload_with_flag =
     \<lparr>url_room = Some ''r1'',
      storage = [''playerId'' \<mapsto> ''p1'', ''playerName'' \<mapsto> ''Ann'',
                 ''game_in_progress'' \<mapsto> ''true''],
      generated_id = ''p9'', db_ok = True\<rparr>"


definition omok_host :: oclient where
  "omok_host =
     blank_client\<lparr>o_roomId := Some ''r1'', o_playerId := ''p1'', o_playerName := ''Ann'',
       connected := True, roomListenerAttached := True, gameListenerAttached := True\<rparr>"

definition omok_midgame :: oclient where
  "omok_midgame = omok_host\<lparr>opponentId := Some ''p2''\<rparr>"

section \<open>Tetris: a round as a system of clients around the store\<close>
















text \<open>A write that neither replaces or deletes the game nor sets a flag to \<^verbatim>\<open>true\<close>.\<close>

definition benign :: "twrite \<Rightarrow> bool" where
  "benign w =
     (case w of
        SetGame ps \<Rightarrow> False
      | ClearGame \<Rightarrow> False
      | UpdatePlayer pid patch \<Rightarrow> sp_alive patch \<noteq> Some True
      | _ \<Rightarrow> True)"







section \<open>The bomb arena: placement and detonation\<close>

text \<open>
  Modelled from the spec: the source of the bomb arena game is not among the source files
  (only the lobby, the room, the local store, Tetris and Omok are); the tile map, the
  players, the bombs, placement and detonation below follow sections 3, 4.1 and 4.3 of
  the specification. A player's continuous position enters only through the tile it
  falls in, which is what the model keeps. Timers are outside: the fuse and a chain
  reaction end in a call of the detonation routine, and a bomb waiting for its chain
  detonation is listed in \<open>a_chain\<close>. The random draw for an item is the given
  predicate \<open>spawn\<close>.
\<close>

datatype tile = Empty | SolidWall | BreakableWall

type_synonym pos = "int \<times> int"

record bomb =
  b_id :: nat
  b_pos :: pos
  b_owner :: string
  b_power :: nat
  b_placedAt :: nat
  b_escaped :: "string list"

record bplayer =
  bp_tile :: pos
  bp_power :: nat
  bp_maxBombs :: int
  bp_activeBombs :: int
  bp_alive :: bool
  bp_trapped :: bool
  bp_trappedAt :: "nat option"

record explosion =
  e_tiles :: "pos list"
  e_createdAt :: nat

record arena =
  a_map :: "tile list list"
  a_bombs :: "bomb list"
  a_players :: "(string \<times> bplayer) list"
  a_explosions :: "explosion list"
  a_chain :: "nat list"
  a_item_spawns :: "pos list"
  a_next_id :: nat

text \<open>
  Modelled from the spec: \<open>tileAt(x, y)\<close> fails with OutOfBounds (\<open>None\<close>) outside the
  grid.
\<close>

definition tileAt :: "arena \<Rightarrow> pos \<Rightarrow> tile option" where
  "tileAt a p =
     (let x = fst p; y = snd p in
      if 0 \<le> y \<and> nat y < length (a_map a) \<and> 0 \<le> x \<and> nat x < length (a_map a ! nat y)
      then Some (a_map a ! nat y ! nat x) else None)"

text \<open>
  Modelled from the spec: \<open>destroy(x, y)\<close> turns a BreakableWall into Empty and does
  nothing to any other tile.
\<close>

definition destroy :: "arena \<Rightarrow> pos \<Rightarrow> arena" where
  "destroy a p =
     (if tileAt a p = Some BreakableWall
      then a\<lparr>a_map := (a_map a)[nat (snd p) := (a_map a ! nat (snd p))[nat (fst p) := Empty]]\<rparr>
      else a)"

text \<open>
  Modelled from the spec: the live bomb on a tile and the live bomb with an id; a tile is
  BombOccupied exactly while it holds a live bomb; \<open>activeBombs\<close> is the player's counter.
\<close>

definition bomb_at :: "arena \<Rightarrow> pos \<Rightarrow> bomb option" where
  "bomb_at a p = find (\<lambda>b. b_pos b = p) (a_bombs a)"

definition bomb_by_id :: "arena \<Rightarrow> nat \<Rightarrow> bomb option" where
  "bomb_by_id a i = find (\<lambda>b. b_id b = i) (a_bombs a)"

definition occupied :: "arena \<Rightarrow> pos \<Rightarrow> bool" where
  "occupied a p \<longleftrightarrow> bomb_at a p \<noteq> None"

definition activeBombs :: "arena \<Rightarrow> string \<Rightarrow> int" where
  "activeBombs a pid = (case map_of (a_players a) pid of None \<Rightarrow> 0 | Some p \<Rightarrow> bp_activeBombs p)"

text \<open>
  Modelled from the spec: placement is rejected, leaving everything as it is, if the player
  is dead or trapped, if \<open>activeBombs \<ge> maxBombs\<close>, or if the player's tile already holds
  a bomb (and for an unknown player). Otherwise a bomb with the player's current blast
  power is created on the player's tile, which makes the tile occupied, and the player's
  active-bomb counter goes up by one.
\<close>

definition placeBomb :: "arena \<Rightarrow> string \<Rightarrow> nat \<Rightarrow> arena" where
  "placeBomb a pid now =
     (case map_of (a_players a) pid of
        None \<Rightarrow> a
      | Some p \<Rightarrow>
          if \<not> bp_alive p \<or> bp_trapped p then a
          else if bp_activeBombs p \<ge> bp_maxBombs p then a
          else if occupied a (bp_tile p) then a
          else
            a\<lparr>a_bombs := a_bombs a @
                 [\<lparr>b_id = a_next_id a, b_pos = bp_tile p, b_owner = pid, b_power = bp_power p,
                   b_placedAt = now, b_escaped = []\<rparr>],
              a_players := AList.update pid (p\<lparr>bp_activeBombs := bp_activeBombs p + 1\<rparr>) (a_players a),
              a_next_id := Suc (a_next_id a)\<rparr>)"

text \<open>
  Modelled from the spec: one ray. It walks outward from the bomb, at most \<open>power\<close>
  tiles: a SolidWall stops it and is left out; a BreakableWall is taken in and stops it;
  a tile with another live bomb is taken in and stops it; any other tile is taken in and
  the ray goes on. A ray that would leave the grid stops (the border of every generated
  map is SolidWall, so it does not get there).
\<close>

definition step_from :: "pos \<Rightarrow> pos \<Rightarrow> pos" where
  "step_from p d = (fst p + fst d, snd p + snd d)"

fun ray :: "arena \<Rightarrow> pos \<Rightarrow> pos \<Rightarrow> nat \<Rightarrow> pos list" where
  "ray a p d 0 = []"
| "ray a p d (Suc n) =
     (let q = step_from p d in
      case tileAt a q of
        None \<Rightarrow> []
      | Some SolidWall \<Rightarrow> []
      | Some BreakableWall \<Rightarrow> [q]
      | Some Empty \<Rightarrow> if occupied a q then [q] else q # ray a q d n)"

definition directions :: "pos list" where
  "directions = [(-1, 0), (1, 0), (0, -1), (0, 1)]"

text \<open>
  Modelled from the spec: the tiles of an explosion are the bomb's own tile and the four
  rays, cast after the bomb itself has left the live set.
\<close>

definition blast_tiles :: "arena \<Rightarrow> bomb \<Rightarrow> pos list" where
  "blast_tiles a b = b_pos b # concat (map (\<lambda>d. ray a (b_pos b) d (b_power b)) directions)"

definition trap :: "pos list \<Rightarrow> nat \<Rightarrow> bplayer \<Rightarrow> bplayer" where
  "trap ts now p =
     (if bp_alive p \<and> \<not> bp_trapped p \<and> bp_tile p \<in> set ts
      then p\<lparr>bp_trapped := True, bp_trappedAt := Some now\<rparr> else p)"

definition trap_players :: "pos list \<Rightarrow> nat \<Rightarrow> (string \<times> bplayer) list \<Rightarrow> (string \<times> bplayer) list" where
  "trap_players ts now ps = map (\<lambda>(pid, p). (pid, trap ts now p)) ps"

text \<open>
  Modelled from the spec: detonation. A bomb that is no longer live is a no-op. Otherwise
  the owner's counter goes down by one and the bomb leaves the live set, which clears its
  tile; the explosion tiles are computed; every BreakableWall among them becomes Empty
  and may be listed for an item; every other live bomb among them is listed for its
  chain detonation; the explosion is recorded; and every alive, untrapped player standing
  on one of the tiles becomes trapped.
\<close>

definition detonate :: "arena \<Rightarrow> nat \<Rightarrow> nat \<Rightarrow> (pos \<Rightarrow> bool) \<Rightarrow> arena" where
  "detonate a bid now spawn =
     (case bomb_by_id a bid of
        None \<Rightarrow> a
      | Some b \<Rightarrow>
          (let ps1 = (case map_of (a_players a) (b_owner b) of
                        None \<Rightarrow> a_players a
                      | Some p \<Rightarrow>
                          AList.update (b_owner b) (p\<lparr>bp_activeBombs := bp_activeBombs p - 1\<rparr>)
                            (a_players a));
               a1 = a\<lparr>a_players := ps1, a_bombs := filter (\<lambda>x. b_id x \<noteq> bid) (a_bombs a)\<rparr>;
               ts = blast_tiles a1 b;
               walls = filter (\<lambda>q. tileAt a1 q = Some BreakableWall) ts;
               hit = map b_id (filter (\<lambda>x. b_pos x \<in> set ts) (a_bombs a1));
               a2 = foldl destroy a1 walls
           in a2\<lparr>a_item_spawns := a_item_spawns a2 @ filter spawn walls,
                 a_chain := a_chain a2 @ hit,
                 a_explosions := a_explosions a2 @ [\<lparr>e_tiles = ts, e_createdAt = now\<rparr>],
                 a_players := trap_players ts now (a_players a2)\<rparr>))"

text \<open>
  Modelled from the spec: the straight line of \<open>n\<close> tiles from a bomb in one direction,
  and the spec's wording of where a ray ends on it: before the first tile that is a
  SolidWall (or off the grid),
  or with the first tile that is a BreakableWall or holds a bomb, whichever comes first.
\<close>

fun line_from :: "pos \<Rightarrow> pos \<Rightarrow> nat \<Rightarrow> pos list" where
  "line_from p d 0 = []"
| "line_from p d (Suc n) = step_from p d # line_from (step_from p d) d n"

definition passable :: "arena \<Rightarrow> pos \<Rightarrow> bool" where
  "passable a q \<longleftrightarrow> tileAt a q = Some Empty \<and> \<not> occupied a q"

definition absorbing :: "arena \<Rightarrow> pos \<Rightarrow> bool" where
  "absorbing a q \<longleftrightarrow>
     tileAt a q = Some BreakableWall \<or> (tileAt a q = Some Empty \<and> occupied a q)"

definition truncated :: "arena \<Rightarrow> pos list \<Rightarrow> pos list" where
  "truncated a line =
     takeWhile (passable a) line @
       (case dropWhile (passable a) line of
          [] \<Rightarrow> []
        | q # rest \<Rightarrow> if absorbing a q then [q] else [])"

text \<open>
  The live set is well formed when no two live bombs share an id or a tile and every id
  in use is below the next id to be given out. Placement and detonation keep it so.
\<close>

definition wf_bombs :: "arena \<Rightarrow> bool" where
  "wf_bombs a \<longleftrightarrow>
     distinct (map b_id (a_bombs a)) \<and> distinct (map b_pos (a_bombs a)) \<and>
     list_all (\<lambda>b. b_id b < a_next_id a) (a_bombs a)"

text \<open>Whether placement by the given player would be rejected.\<close>

definition rejected :: "arena \<Rightarrow> bplayer \<Rightarrow> bool" where
  "rejected a p \<longleftrightarrow>
     \<not> bp_alive p \<or> bp_trapped p \<or> bp_activeBombs p \<ge> bp_maxBombs p \<or> occupied a (bp_tile p)"

text \<open>The arena as the rays of a detonating bomb see it: without that bomb.\<close>

definition without_bomb :: "arena \<Rightarrow> nat \<Rightarrow> arena" where
  "without_bomb a bid = a\<lparr>a_bombs := filter (\<lambda>x. b_id x \<noteq> bid) (a_bombs a)\<rparr>"

text \<open>
  The reference grid (13 by 11) with SolidWall on the border and nothing inside, a player
  with blast power 2 standing on (5, 5), and the same grid with a BreakableWall on (6, 5).
\<close>

definition open_map :: "tile list list" where
  "open_map =
     map (\<lambda>y. map (\<lambda>x. if x = 0 \<or> x = 12 \<or> y = 0 \<or> y = 10 then SolidWall else Empty) [0..<13])
       [0..<11]"

definition bomber :: bplayer where
  "bomber = \<lparr>bp_tile = (5, 5), bp_power = 2, bp_maxBombs = 1, bp_activeBombs = 0,
             bp_alive = True, bp_trapped = False, bp_trappedAt = None\<rparr>"

definition open_arena :: arena where
  "open_arena =
     \<lparr>a_map = open_map, a_bombs = [], a_players = [(''p1'', bomber)], a_explosions = [],
      a_chain = [], a_item_spawns = [], a_next_id = 0\<rparr>"

definition walled_arena :: arena where
  "walled_arena = open_arena\<lparr>a_map := open_map[5 := (open_map ! 5)[6 := BreakableWall]]\<rparr>"

text \<open>The open arena after the player has placed one bomb, and the player then.\<close>

definition placed_once :: arena where
  "placed_once = placeBomb open_arena ''p1'' 0"

definition no_items :: "pos \<Rightarrow> bool" where
  "no_items q = False"

section \<open>Properties of the local store\<close>

lemma get_from_None [simp]: "get_from None ks = None"
  by (cases ks) simp_all



lemma listeners_db_set [simp]: "listeners (fst (db_set db p v)) = listeners db"
  by (simp add: db_set_def Let_def)

lemma data_db_set [simp]: "data (fst (db_set db p v)) = set_keys (path_keys p) v (data db)"
  by (simp add: db_set_def Let_def)





lemma remove_char_of_string_raises:
  "remove_keys [''name'', ''0''] (JObj [(''name'', JStr ''ab'')]) = Threw"
  by (simp add: own_prop_def delete_prop_def numeral_2_eq_2 string_of_nat.simps digit_char_def)

lemma path_keys_r1_game [simp]:
  "path_keys ''rooms/r1/game'' = [''rooms'', ''r1'', ''game'']"
  by (simp add: path_keys_def)

lemma path_keys_r1 [simp]: "path_keys ''rooms/r1'' = [''rooms'', ''r1'']"
  by (simp add: path_keys_def)




lemma map_of_spread:
  "distinct (map fst u) \<Longrightarrow>
   map_of (spread a u) k = (case map_of u k of Some v \<Rightarrow> Some v | None \<Rightarrow> map_of a k)"
  unfolding spread_def
proof (induction u arbitrary: a)
  case Nil
  then show ?case by simp
next
  case (Cons e u)
  obtain k' v' where e: "e = (k', v')" by (cases e)
  have "k' \<notin> fst ` set u" using Cons.prems e by auto
  then have nk: "map_of u k' = None" by (simp add: map_of_eq_None_iff)
  show ?case using Cons.IH[of "AList.update k' v' a"] Cons.prems e nk
    by (auto simp: update_conv' split: option.splits)
qed

lemma get_set_same:
  "ks \<noteq> [] \<Longrightarrow> get_from (Some (JObj (set_keys ks v fs))) ks = Some v"
  by (induction ks v fs rule: set_keys.induct)
     (auto simp: update_conv' split: option.splits jsval.splits)

lemma set_keys_step:
  "set_keys (k # k' # ks) v fs = AList.update k (JObj (set_keys (k' # ks) v (sub_of fs k))) fs"
  by (simp add: sub_of_def split: option.splits jsval.splits)

lemma get_from_step:
  "qs \<noteq> [] \<Longrightarrow> get_from (Some (JObj fs)) (k # qs) = get_from (Some (JObj (sub_of fs k))) qs"
  by (cases qs) (auto simp: sub_of_def split: option.splits jsval.splits)

text \<open>A write leaves every path alone that is neither above nor below the written one.\<close>

lemma get_set_other:
  "\<not> prefix ks qs \<Longrightarrow> \<not> prefix qs ks \<Longrightarrow>
   get_from (Some (JObj (set_keys ks v fs))) qs = get_from (Some (JObj fs)) qs"
proof (induction ks arbitrary: fs qs)
  case Nil
  then show ?case by simp
next
  case (Cons k ks)
  from Cons.prems obtain q qs' where qs: "qs = q # qs'" by (cases qs) auto
  show ?case
  proof (cases ks)
    case Nil
    then show ?thesis using Cons.prems qs by (auto simp: update_conv')
  next
    case inner: (Cons k' ks')
    show ?thesis
    proof (cases "q = k")
      case False
      then show ?thesis unfolding inner set_keys_step qs by (simp add: update_conv')
    next
      case True
      have ne: "qs' \<noteq> []" using Cons.prems(2) qs True by auto
      have np: "\<not> prefix ks qs'" "\<not> prefix qs' ks" using Cons.prems qs True by auto
      have "get_from (Some (JObj (set_keys (k # ks) v fs))) qs
            = get_from (Some (JObj (set_keys ks v (sub_of fs k)))) qs'"
        unfolding inner set_keys_step qs True using ne
        by (cases qs') (simp_all add: update_conv')
      also have "\<dots> = get_from (Some (JObj (sub_of fs k))) qs'"
        by (rule Cons.IH[OF np])
      also have "\<dots> = get_from (Some (JObj fs)) qs"
        unfolding qs True by (rule get_from_step[OF ne, symmetric])
      finally show ?thesis .
    qed
  qed
qed

text \<open>
  Below the root, \<^verbatim>\<open>update\<close> is a shallow merge: the object at the path becomes the
  old fields overlaid with the update, a field the update does not name keeps its value,
  and a path that is neither above nor below the updated one reads as before.
\<close>

lemma update_shallow_merge_below_root:
  assumes "path_keys p \<noteq> []" and "db_get db p = Some (JObj obj)" and "distinct (map fst u)"
  shows "db_get (fst (db_update db p u)) p = Some (JObj (spread obj u))"
    and "map_of (spread obj u) k = (case map_of u k of Some v \<Rightarrow> Some v | None \<Rightarrow> map_of obj k)"
    and "\<not> prefix (path_keys p) (path_keys q) \<Longrightarrow> \<not> prefix (path_keys q) (path_keys p) \<Longrightarrow>
           db_get (fst (db_update db p u)) q = db_get db q"
proof -
  show "db_get (fst (db_update db p u)) p = Some (JObj (spread obj u))"
    using assms(1,2) by (simp add: db_update_def db_get_def js_or_def or_undef_def get_set_same)
  show "map_of (spread obj u) k = (case map_of u k of Some v \<Rightarrow> Some v | None \<Rightarrow> map_of obj k)"
    using assms(3) by (rule map_of_spread)
  show "db_get (fst (db_update db p u)) q = db_get db q"
    if "\<not> prefix (path_keys p) (path_keys q)" "\<not> prefix (path_keys q) (path_keys p)"
    using that by (simp add: db_update_def db_get_def get_set_other)
qed


section \<open>The board encodings are inverse to their decoders\<close>

subsection \<open>The flat array\<close>

lemma concat_nth_uniform:
  "\<forall>r \<in> set b. length r = n \<Longrightarrow> y < length b \<Longrightarrow> x < n \<Longrightarrow> concat b ! (y * n + x) = b ! y ! x"
proof (induction b arbitrary: y)
  case Nil
  then show ?case by simp
next
  case (Cons r b)
  show ?case
  proof (cases y)
    case 0
    then show ?thesis using Cons.prems by (simp add: nth_append)
  next
    case (Suc y')
    have "concat (r # b) ! (y * n + x) = concat b ! (y' * n + x)"
      using Cons.prems Suc by (simp add: nth_append)
    then show ?thesis using Cons.IH[of y'] Cons.prems Suc by simp
  qed
qed

lemma length_concat_uniform:
  "\<forall>r \<in> set b. length r = n \<Longrightarrow> length (concat b) = length b * n"
  by (induction b) auto

lemma valid_board_rows:
  assumes "valid_board b"
  shows "length b = BOARD_SIZE" and "\<And>r. r \<in> set b \<Longrightarrow> length r = BOARD_SIZE"
    and "\<And>y x. y < BOARD_SIZE \<Longrightarrow> x < BOARD_SIZE \<Longrightarrow>
           b ! y ! x = EMPTY \<or> b ! y ! x = BLACK \<or> b ! y ! x = WHITE"
proof -
  show l: "length b = BOARD_SIZE" using assms by (simp add: valid_board_def)
  show r: "\<And>r. r \<in> set b \<Longrightarrow> length r = BOARD_SIZE"
    using assms by (auto simp: valid_board_def list_all_iff)
  fix y x assume yx: "y < BOARD_SIZE" "x < BOARD_SIZE"
  have "b ! y \<in> set b" using yx l by simp
  moreover have "b ! y ! x \<in> set (b ! y)" using yx l r[of "b ! y"] by simp
  ultimately show "b ! y ! x = EMPTY \<or> b ! y ! x = BLACK \<or> b ! y ! x = WHITE"
    using assms by (auto simp: valid_board_def list_all_iff)
qed

lemma js_or_cell:
  "c = EMPTY \<or> c = BLACK \<or> c = WHITE \<Longrightarrow> js_or c EMPTY = c"
  by (auto simp: js_or_def EMPTY_def BLACK_def WHITE_def)

lemma grid_rebuild:
  assumes "length b = n" and "\<And>r. r \<in> set b \<Longrightarrow> length r = n"
  shows "map (\<lambda>y. map (\<lambda>x. b ! y ! x) [0..<n]) [0..<n] = b"
proof (rule nth_equalityI)
  show "length (map (\<lambda>y. map (\<lambda>x. b ! y ! x) [0..<n]) [0..<n]) = length b"
    using assms(1) by simp
next
  fix y assume "y < length (map (\<lambda>y. map (\<lambda>x. b ! y ! x) [0..<n]) [0..<n])"
  then have y: "y < n" by simp
  then have "length (b ! y) = n" using assms by simp
  then have "map (\<lambda>x. b ! y ! x) [0..<n] = b ! y"
    by (metis map_nth)
  then show "map (\<lambda>y. map (\<lambda>x. b ! y ! x) [0..<n]) [0..<n] ! y = b ! y"
    using y by simp
qed

lemma flatten_valid:
  assumes "valid_board b"
  shows "flattenBoard b = Some (concat b)"
proof -
  note vb = valid_board_rows[OF assms]
  have "map (\<lambda>y. map (\<lambda>x. js_nth (b ! y) x) [0..<BOARD_SIZE]) [0..<BOARD_SIZE]
        = map (\<lambda>y. map (\<lambda>x. b ! y ! x) [0..<BOARD_SIZE]) [0..<BOARD_SIZE]"
    using vb(1,2) by (auto simp: js_nth_def)
  also have "\<dots> = b" using vb(1,2) by (rule grid_rebuild)
  finally show ?thesis using vb(1) by (simp add: flattenBoard_def)
qed

lemma unflatten_concat:
  assumes "valid_board b"
  shows "unflattenBoard (Some (concat b)) = b"
proof -
  note vb = valid_board_rows[OF assms]
  have len: "length (concat b) = BOARD_SIZE * BOARD_SIZE"
    using length_concat_uniform[of b BOARD_SIZE] vb(1,2) by simp
  have cell: "js_or (js_nth (concat b) (y * BOARD_SIZE + x)) EMPTY = b ! y ! x"
    if "y < BOARD_SIZE" "x < BOARD_SIZE" for y x
  proof -
    have "y * BOARD_SIZE + x < BOARD_SIZE * BOARD_SIZE"
    proof -
      have "y * BOARD_SIZE + x < y * BOARD_SIZE + BOARD_SIZE" using that by simp
      also have "\<dots> = Suc y * BOARD_SIZE" by simp
      also have "\<dots> \<le> BOARD_SIZE * BOARD_SIZE" using that(1) by (metis Suc_leI mult_le_mono1)
      finally show ?thesis .
    qed
    then have "js_nth (concat b) (y * BOARD_SIZE + x) = concat b ! (y * BOARD_SIZE + x)"
      using len by (simp add: js_nth_def)
    also have "\<dots> = b ! y ! x"
      using concat_nth_uniform[of b BOARD_SIZE y x] vb(1,2) that by simp
    finally show ?thesis using js_or_cell[OF vb(3)[OF that]] by simp
  qed
  have "unflattenBoard (Some (concat b))
        = map (\<lambda>y. map (\<lambda>x. b ! y ! x) [0..<BOARD_SIZE]) [0..<BOARD_SIZE]"
    using cell by (simp add: unflattenBoard_def)
  also have "\<dots> = b" using vb(1,2) by (rule grid_rebuild)
  finally show ?thesis .
qed

subsection \<open>Keys of the sparse object\<close>

lemma digit_char_props:
  assumes "d < 10"
  shows "is_digit (digit_char d)" and "digit_val (digit_char d) = d" and "digit_char d \<noteq> CHR ''_''"
proof -
  have "d \<in> {0,1,2,3,4,5,6,7,8,9}" using assms by auto
  then show "is_digit (digit_char d)" and "digit_val (digit_char d) = d" and "digit_char d \<noteq> CHR ''_''"
    by (auto simp: is_digit_def digit_val_def digit_char_def)
qed

lemma string_of_nat_digits: "list_all is_digit (string_of_nat n)"
proof (induction n rule: string_of_nat.induct)
  case (1 n)
  show ?case
  proof (cases "n < 10")
    case True
    then show ?thesis by (subst string_of_nat.simps) (simp add: digit_char_props)
  next
    case False
    then show ?thesis using 1 by (subst string_of_nat.simps) (simp add: digit_char_props)
  qed
qed

lemma string_of_nat_no_underscore: "CHR ''_'' \<notin> set (string_of_nat n)"
proof (induction n rule: string_of_nat.induct)
  case (1 n)
  show ?case
  proof (cases "n < 10")
    case True
    then show ?thesis using digit_char_props(3)[of n] by (subst string_of_nat.simps) auto
  next
    case False
    then show ?thesis using 1 digit_char_props(3)[of "n mod 10"]
      by (subst string_of_nat.simps) auto
  qed
qed

lemma string_of_nat_value: "foldl (\<lambda>a c. 10 * a + digit_val c) 0 (string_of_nat n) = n"
proof (induction n rule: string_of_nat.induct)
  case (1 n)
  show ?case
  proof (cases "n < 10")
    case True
    then show ?thesis by (subst string_of_nat.simps) (simp add: digit_char_props)
  next
    case False
    then show ?thesis using 1 by (subst string_of_nat.simps) (simp add: digit_char_props)
  qed
qed

lemma js_index_string_of_nat: "js_index (Some (string_of_nat n)) = Some n"
  by (simp add: js_index_def string_of_nat_digits string_of_nat_value)

lemma split_on_absent: "c \<notin> set a \<Longrightarrow> split_on c a = [a]"
  by (induction a) auto

lemma split_on_first: "c \<notin> set a \<Longrightarrow> split_on c (a @ c # b) = a # split_on c b"
  by (induction a) auto

lemma split_stone_key:
  "split_on CHR ''_'' (stone_key x y) = [string_of_nat x, string_of_nat y]"
  unfolding stone_key_def
  using split_on_first[of "CHR ''_''" "string_of_nat x" "string_of_nat y"]
  by (simp add: string_of_nat_no_underscore split_on_absent)

lemma stone_key_inj: "stone_key x y = stone_key x' y' \<Longrightarrow> x = x' \<and> y = y'"
proof -
  assume "stone_key x y = stone_key x' y'"
  then have "split_on CHR ''_'' (stone_key x y) = split_on CHR ''_'' (stone_key x' y')" by simp
  then have "string_of_nat x = string_of_nat x'" "string_of_nat y = string_of_nat y'"
    by (simp_all add: split_stone_key)
  then have "js_index (Some (string_of_nat x)) = js_index (Some (string_of_nat x'))"
    "js_index (Some (string_of_nat y)) = js_index (Some (string_of_nat y'))" by simp_all
  then show ?thesis by (simp add: js_index_string_of_nat)
qed

subsection \<open>Decoding a list of stone entries\<close>

lemma decode_entry_stone:
  assumes "y < length board" "stone_colour v = Some col"
  shows "decode_entry (Some board) (stone_key x y, v)
         = Some (board[y := js_array_set (board ! y) x col])"
  using assms
  by (auto simp: decode_entry_def split_stone_key js_index_string_of_nat stone_colour_def Let_def
      split: if_splits)

lemma grid_put:
  assumes "grid b" "y < BOARD_SIZE" "x < BOARD_SIZE"
  shows "grid (b[y := js_array_set (b ! y) x col])"
    and "\<And>y' x'. y' < BOARD_SIZE \<Longrightarrow> x' < BOARD_SIZE \<Longrightarrow>
           b[y := js_array_set (b ! y) x col] ! y' ! x' = (if y' = y \<and> x' = x then col else b ! y' ! x')"
proof -
  have l: "length b = BOARD_SIZE" and r: "length (b ! y) = BOARD_SIZE"
    using assms by (auto simp: grid_def)
  have s: "js_array_set (b ! y) x col = (b ! y)[x := col]"
    using assms r by (simp add: js_array_set_def)
  show "grid (b[y := js_array_set (b ! y) x col])"
    using assms r unfolding grid_def s by (auto dest!: set_update_subset_insert[THEN subsetD])
  fix y' x' assume "y' < BOARD_SIZE" "x' < BOARD_SIZE"
  then show "b[y := js_array_set (b ! y) x col] ! y' ! x' = (if y' = y \<and> x' = x then col else b ! y' ! x')"
    unfolding s using l r assms(2,3) by (cases "y' = y") (simp_all add: nth_list_update)
qed

lemma decode_fold:
  assumes "good_entries es" "grid bd"
  shows "\<exists>bd'. foldl decode_entry (Some bd) es = Some bd' \<and> grid bd' \<and>
           (\<forall>y < BOARD_SIZE. \<forall>x < BOARD_SIZE.
              bd' ! y ! x = (case map_of es (stone_key x y) of
                               None \<Rightarrow> bd ! y ! x
                             | Some v \<Rightarrow> the (stone_colour v)))"
  using assms
proof (induction es arbitrary: bd)
  case Nil
  then show ?case by simp
next
  case (Cons e es)
  obtain k v where e: "e = (k, v)" by (cases e)
  from Cons.prems(1) e obtain x0 y0 col where
    k: "k = stone_key x0 y0" and x0: "x0 < BOARD_SIZE" and y0: "y0 < BOARD_SIZE"
    and col: "stone_colour v = Some col"
    by (auto simp: good_entries_def)
  have ges: "good_entries es" using Cons.prems(1) by (auto simp: good_entries_def)
  have fresh: "map_of es k = None"
    using Cons.prems(1) e by (auto simp: good_entries_def map_of_eq_None_iff)
  let ?bd1 = "bd[y0 := js_array_set (bd ! y0) x0 col]"
  have lb: "length bd = BOARD_SIZE" using Cons.prems(2) by (simp add: grid_def)
  have step: "decode_entry (Some bd) e = Some ?bd1"
    unfolding e k using decode_entry_stone[of y0 bd v col x0] y0 lb col by simp
  note gp = grid_put[OF Cons.prems(2) y0 x0, where col=col]
  from Cons.IH[OF ges gp(1)] obtain bd' where
    f: "foldl decode_entry (Some ?bd1) es = Some bd'" and g: "grid bd'" and
    c: "\<And>y x. y < BOARD_SIZE \<Longrightarrow> x < BOARD_SIZE \<Longrightarrow>
          bd' ! y ! x = (case map_of es (stone_key x y) of None \<Rightarrow> ?bd1 ! y ! x
                          | Some v \<Rightarrow> the (stone_colour v))"
    by blast
  have "bd' ! y ! x = (case map_of (e # es) (stone_key x y) of None \<Rightarrow> bd ! y ! x
                        | Some v \<Rightarrow> the (stone_colour v))"
    if yx: "y < BOARD_SIZE" "x < BOARD_SIZE" for y x
  proof (cases "stone_key x y = k")
    case True
    then have "x = x0" "y = y0" using k stone_key_inj by blast+
    then show ?thesis using c[OF yx] fresh gp(2)[OF yx] e k col by simp
  next
    case False
    then have "\<not> (y = y0 \<and> x = x0)" using k by auto
    then show ?thesis using c[OF yx] gp(2)[OF yx] e False by (auto split: option.splits)
  qed
  then show ?case using f g step by simp
qed

subsection \<open>The entries that encoding produces\<close>

lemma foldl_nested:
  "foldl (\<lambda>acc y. foldl (f y) acc xs) a ys = foldl (\<lambda>acc (y, x). f y acc x) a (List.product ys xs)"
  by (induction ys arbitrary: a) (simp_all add: foldl_map)

lemma in_update_cases:
  "(k', v') \<in> set (AList.update k v al) \<Longrightarrow> (k', v') = (k, v) \<or> (k', v') \<in> set al"
  by (induction al) (auto split: if_splits)

lemma encode_cell_code:
  "encode_cell b y acc x =
     (case stone_code (js_nth (b ! y) x) of
        Some v \<Rightarrow> AList.update (stone_key x y) v acc
      | None \<Rightarrow> acc)"
  by (simp add: encode_cell_def stone_code_def Let_def)

lemma stone_code_colour: "stone_code c = Some v \<Longrightarrow> stone_colour v = Some c"
  by (auto simp: stone_code_def stone_colour_def split: if_splits)

lemma encode_cells_inv:
  assumes vb: "valid_board b"
    and cs: "distinct cs" "\<forall>(y, x) \<in> set cs. y < BOARD_SIZE \<and> x < BOARD_SIZE"
  shows "good_entries (foldl (\<lambda>acc (y, x). encode_cell b y acc x) [] cs) \<and>
         fst ` set (foldl (\<lambda>acc (y, x). encode_cell b y acc x) [] cs)
           \<subseteq> (\<lambda>(y, x). stone_key x y) ` set cs \<and>
         (\<forall>(y, x) \<in> set cs.
            map_of (foldl (\<lambda>acc (y, x). encode_cell b y acc x) [] cs) (stone_key x y)
              = stone_code (b ! y ! x))"
  using cs
proof (induction cs rule: rev_induct)
  case Nil
  then show ?case by (simp add: good_entries_def)
next
  case (snoc c cs)
  obtain y x where c: "c = (y, x)" by (cases c)
  let ?acc = "foldl (\<lambda>acc (y, x). encode_cell b y acc x) [] cs"
  have yx: "y < BOARD_SIZE" "x < BOARD_SIZE" and new: "(y, x) \<notin> set cs"
    using snoc.prems c by auto
  have pre: "distinct cs" "\<forall>(y, x) \<in> set cs. y < BOARD_SIZE \<and> x < BOARD_SIZE"
    using snoc.prems by simp_all
  note IH = snoc.IH[OF pre]
  have ih: "good_entries ?acc" "fst ` set ?acc \<subseteq> (\<lambda>(y, x). stone_key x y) ` set cs"
    using IH by blast+
  have ih3: "map_of ?acc (stone_key x' y') = stone_code (b ! y' ! x')" if "(y', x') \<in> set cs" for y' x'
    using IH that by blast
  note vr = valid_board_rows[OF vb]
  have cell: "js_nth (b ! y) x = b ! y ! x"
    using yx vr(1) vr(2)[of "b ! y"] by (simp add: js_nth_def)
  have fresh: "map_of ?acc (stone_key x y) = None"
  proof -
    have "stone_key x y \<notin> fst ` set ?acc"
    proof
      assume "stone_key x y \<in> fst ` set ?acc"
      then have "stone_key x y \<in> (\<lambda>(y, x). stone_key x y) ` set cs" using ih(2) by blast
      then obtain y' x' where "(y', x') \<in> set cs" "stone_key x y = stone_key x' y'"
        by (auto simp: image_iff)
      then show False using new stone_key_inj by blast
    qed
    then show ?thesis by (simp add: map_of_eq_None_iff)
  qed
  have other: "stone_key x' y' \<noteq> stone_key x y" if "(y', x') \<in> set cs" for y' x'
    using that new stone_key_inj by blast
  let ?acc' = "encode_cell b y ?acc x"
  have step: "foldl (\<lambda>acc (y, x). encode_cell b y acc x) [] (cs @ [c]) = ?acc'"
    by (simp add: c)
  consider (stone) v where "stone_code (b ! y ! x) = Some v" "?acc' = AList.update (stone_key x y) v ?acc"
      "stone_colour v \<noteq> None"
    | (none) "stone_code (b ! y ! x) = None" "?acc' = ?acc"
  proof (cases "stone_code (b ! y ! x)")
    case None
    have "?acc' = ?acc" using None by (simp only: encode_cell_code cell option.case)
    then show ?thesis using None that(2) by blast
  next
    case (Some v)
    have "?acc' = AList.update (stone_key x y) v ?acc"
      using Some by (simp only: encode_cell_code cell option.case)
    moreover have "stone_colour v \<noteq> None" using stone_code_colour[OF Some] by simp
    ultimately show ?thesis using Some that(1) by blast
  qed
  then have "good_entries ?acc' \<and> fst ` set ?acc' \<subseteq> (\<lambda>(y, x). stone_key x y) ` set (cs @ [c]) \<and>
     (\<forall>(y', x') \<in> set (cs @ [c]). map_of ?acc' (stone_key x' y') = stone_code (b ! y' ! x'))"
  proof cases
    case stone
    have g: "good_entries ?acc'"
      unfolding stone(2) good_entries_def
    proof (intro conjI)
      show "distinct (map fst (AList.update (stone_key x y) v ?acc))"
        using ih(1) by (simp add: good_entries_def distinct_update)
      show "\<forall>(k, w) \<in> set (AList.update (stone_key x y) v ?acc).
              \<exists>x y. x < BOARD_SIZE \<and> y < BOARD_SIZE \<and> k = stone_key x y \<and> stone_colour w \<noteq> None"
      proof (clarify)
        fix k w assume "(k, w) \<in> set (AList.update (stone_key x y) v ?acc)"
        then have "(k, w) = (stone_key x y, v) \<or> (k, w) \<in> set ?acc" by (rule in_update_cases)
        then show "\<exists>x y. x < BOARD_SIZE \<and> y < BOARD_SIZE \<and> k = stone_key x y \<and> stone_colour w \<noteq> None"
          using yx stone(3) ih(1) by (auto simp: good_entries_def)
      qed
    qed
    have s: "fst ` set ?acc' \<subseteq> (\<lambda>(y, x). stone_key x y) ` set (cs @ [c])"
    proof
      fix k assume "k \<in> fst ` set ?acc'"
      then obtain w where "(k, w) \<in> set (AList.update (stone_key x y) v ?acc)"
        unfolding stone(2) by auto
      then have "(k, w) = (stone_key x y, v) \<or> (k, w) \<in> set ?acc" by (rule in_update_cases)
      then consider "k = stone_key x y" | "k \<in> fst ` set ?acc" by force
      then show "k \<in> (\<lambda>(y, x). stone_key x y) ` set (cs @ [c])"
      proof cases
        case 1
        then show ?thesis unfolding c by (simp add: image_iff)
      next
        case 2
        then have "k \<in> (\<lambda>(y, x). stone_key x y) ` set cs" using ih(2) by blast
        then show ?thesis by auto
      qed
    qed
    have m: "\<forall>(y', x') \<in> set (cs @ [c]). map_of ?acc' (stone_key x' y') = stone_code (b ! y' ! x')"
    proof (clarify)
      fix y' x' assume "(y', x') \<in> set (cs @ [c])"
      then consider "(y', x') \<in> set cs" | "y' = y" "x' = x" using c by auto
      then show "map_of ?acc' (stone_key x' y') = stone_code (b ! y' ! x')"
      proof cases
        case 1
        then show ?thesis unfolding stone(2) using other[OF 1] ih3[OF 1] by (simp add: update_conv')
      next
        case 2
        then show ?thesis unfolding stone(2) using stone(1) by (simp add: update_conv')
      qed
    qed
    show ?thesis using g s m by (intro conjI)
  next
    case none
    have s: "fst ` set ?acc \<subseteq> (\<lambda>(y, x). stone_key x y) ` set (cs @ [c])"
      using ih(2) by auto
    have m: "\<forall>(y', x') \<in> set (cs @ [c]). map_of ?acc (stone_key x' y') = stone_code (b ! y' ! x')"
    proof (clarify)
      fix y' x' assume "(y', x') \<in> set (cs @ [c])"
      then consider "(y', x') \<in> set cs" | "y' = y" "x' = x" using c by auto
      then show "map_of ?acc (stone_key x' y') = stone_code (b ! y' ! x')"
      proof cases
        case 1
        then show ?thesis by (rule ih3)
      next
        case 2
        then show ?thesis using fresh none(1) by simp
      qed
    qed
    show ?thesis unfolding none(2) using ih(1) s m by (intro conjI)
  qed
  then show ?case unfolding step .
qed

subsection \<open>Round trip\<close>

lemma empty_board_grid: "grid empty_board"
  by (auto simp: grid_def empty_board_def)

lemma empty_board_cell: "y < BOARD_SIZE \<Longrightarrow> x < BOARD_SIZE \<Longrightarrow> empty_board ! y ! x = EMPTY"
  by (simp add: empty_board_def)

lemma grid_eqI:
  assumes "grid a" "grid b"
    and "\<And>y x. y < BOARD_SIZE \<Longrightarrow> x < BOARD_SIZE \<Longrightarrow> a ! y ! x = b ! y ! x"
  shows "a = b"
proof (rule nth_equalityI)
  show "length a = length b" using assms(1,2) by (simp add: grid_def)
next
  fix y assume "y < length a"
  then have y: "y < BOARD_SIZE" using assms(1) by (simp add: grid_def)
  have la: "length (a ! y) = BOARD_SIZE" using assms(1) y by (simp add: grid_def)
  have lb: "length (b ! y) = BOARD_SIZE" using assms(2) y by (simp add: grid_def)
  show "a ! y = b ! y"
    by (rule nth_equalityI) (use la lb assms(3)[OF y] in simp_all)
qed

lemma sparse_roundtrip:
  assumes vb: "valid_board b"
  shows "Option.bind (encodeBoard b) (\<lambda>sparse. decodeBoard (JObj sparse)) = Some b"
proof -
  note vr = valid_board_rows[OF vb]
  let ?cs = "List.product [0..<BOARD_SIZE] [0..<BOARD_SIZE]"
  let ?enc = "foldl (\<lambda>acc (y, x). encode_cell b y acc x) [] ?cs"
  have enc: "encodeBoard b = Some ?enc"
    using vr(1) by (simp add: encodeBoard_def foldl_nested)
  have cs: "distinct ?cs" "\<forall>(y, x) \<in> set ?cs. y < BOARD_SIZE \<and> x < BOARD_SIZE"
    by (simp_all add: distinct_product)
  note inv = encode_cells_inv[OF vb cs]
  have ge: "good_entries ?enc" using inv by blast
  have code: "map_of ?enc (stone_key x y) = stone_code (b ! y ! x)"
    if "y < BOARD_SIZE" "x < BOARD_SIZE" for y x
  proof -
    have "(y, x) \<in> set ?cs" using that by simp
    then show ?thesis using inv by blast
  qed
  from decode_fold[OF ge empty_board_grid] obtain bd' where
    f: "foldl decode_entry (Some empty_board) ?enc = Some bd'" and g: "grid bd'" and
    c: "\<And>y x. y < BOARD_SIZE \<Longrightarrow> x < BOARD_SIZE \<Longrightarrow>
          bd' ! y ! x = (case map_of ?enc (stone_key x y) of None \<Rightarrow> empty_board ! y ! x
                          | Some v \<Rightarrow> the (stone_colour v))"
    by blast
  have gb: "grid b" using vr(1,2) by (simp add: grid_def)
  have "bd' ! y ! x = b ! y ! x" if yx: "y < BOARD_SIZE" "x < BOARD_SIZE" for y x
  proof (cases "stone_code (b ! y ! x)")
    case None
    then have "b ! y ! x = EMPTY" using vr(3)[OF yx] by (auto simp: stone_code_def split: if_splits)
    then show ?thesis using c[OF yx] code[OF yx] None empty_board_cell[OF yx] by simp
  next
    case (Some v)
    then show ?thesis using c[OF yx] code[OF yx] stone_code_colour[OF Some] by simp
  qed
  then have "bd' = b" using g gb by (intro grid_eqI)
  then show ?thesis using enc f by (simp add: decodeBoard_def)
qed

text \<open>
  C2: for every board on the 15 by 15 grid whose cells are empty, black or white,
  \<^verbatim>\<open>flattenBoard\<close> returns an array that \<^verbatim>\<open>unflattenBoard\<close> turns back into the
  same board, and \<^verbatim>\<open>encodeBoard\<close> returns a sparse object that \<^verbatim>\<open>decodeBoard\<close>
  turns back into the same board.
\<close>

theorem board_roundtrip:
  assumes "valid_board b"
  shows "map_option (\<lambda>flat. unflattenBoard (Some flat)) (flattenBoard b) = Some b \<and>
         Option.bind (encodeBoard b) (\<lambda>sparse. decodeBoard (JObj sparse)) = Some b"
  using assms by (simp add: flatten_valid unflatten_concat sparse_roundtrip)

lemma valid_two_stones: "valid_board two_stones"
  by code_simp

theorem board_roundtrip_witness:
  "valid_board two_stones \<and>
   map_option (\<lambda>flat. unflattenBoard (Some flat)) (flattenBoard two_stones) = Some two_stones \<and>
   Option.bind (encodeBoard two_stones) (\<lambda>sparse. decodeBoard (JObj sparse)) = Some two_stones"
  using board_roundtrip[OF valid_two_stones] valid_two_stones by simp

section \<open>Initialisation of the shared game\<close>








lemma initializeGame_flag: "isInitializing c \<Longrightarrow> snd (initializeGame c read swap) = []"
  by (simp add: initializeGame_def)




section \<open>Elimination, rank and the end of the game\<close>

lemma not_alive_marked [simp]: "\<not> is_alive (p\<lparr>tp_alive := Some False, tp_rank := r\<rparr>)"
  by (simp add: is_alive_def)






lemma set_local_other [simp]:
  "isHost (set_local k f c) = isHost c" "playerId (set_local k f c) = playerId c"
  "gameOver (set_local k f c) = gameOver c"
  by (simp_all add: set_local_def split: option.splits)



lemma finishGame_single: "\<exists>rs. finishGame c = [FinishGame rs]"
  by (simp add: finishGame_def)

lemma finishGame_is_finish [simp]: "list_ex is_finish_write (finishGame c)"
  by (simp add: finishGame_def is_finish_write_def)

lemma death_not_finish [simp]: "\<not> is_finish_write (death_write p r)" "\<not> is_finish_write (rank_write p r)"
  by (simp_all add: is_finish_write_def death_write_def rank_write_def)













section \<open>Omok: what a page start and a page exit do\<close>

lemma getPlayerId_with_flag:
  "fst (getPlayerId (with_flag p v)) = fst (getPlayerId p)"
  "snd (getPlayerId (with_flag p v)) = (snd (getPlayerId p))(''game_in_progress'' := v)"
  by (auto simp: getPlayerId_def with_flag_def fun_upd_twist split: option.splits)

lemma getPlayerName_flag [simp]:
  "getPlayerName (st(''game_in_progress'' := v)) = getPlayerName st"
  by (simp add: getPlayerName_def)

lemma omok_init_no_write: "writes_made (omok_init sub p) = []"
  by (auto simp: omok_init_def Let_def split: option.splits prod.splits)

lemma omok_init_flag_blind:
  "client_after (omok_init sub (with_flag p v)) = client_after (omok_init sub p)"
  "navigates_to (omok_init sub (with_flag p v)) = navigates_to (omok_init sub p)"
proof -
  have u: "url_room (with_flag p v) = url_room p" "db_ok (with_flag p v) = db_ok p"
    by (simp_all add: with_flag_def)
  obtain pid st where g: "getPlayerId p = (pid, st)" by (cases "getPlayerId p")
  then have g': "getPlayerId (with_flag p v) = (pid, st(''game_in_progress'' := v))"
    using getPlayerId_with_flag[of p v] by (simp add: prod_eq_iff)
  show "client_after (omok_init sub (with_flag p v)) = client_after (omok_init sub p)"
    unfolding omok_init_def u g g' by (simp add: Let_def split: option.splits)
  show "navigates_to (omok_init sub (with_flag p v)) = navigates_to (omok_init sub p)"
    unfolding omok_init_def u g g' by (simp add: Let_def split: option.splits)
qed

lemma omok_init_joins:
  assumes "joins p"
  shows "storage_after (omok_init sub p) ''game_in_progress'' = Some ''true''"
    and "navigates_to (omok_init sub p) = None"
    and "client_after (omok_init sub p) =
           sub (blank_client\<lparr>o_roomId := url_room p, o_playerId := fst (getPlayerId p),
                 o_playerName := getPlayerName (snd (getPlayerId p)), connected := True\<rparr>)"
  using assms
  by (auto simp: joins_def omok_init_def Let_def split: option.splits prod.splits)

lemma unload_writes:
  "snd (snd (handleBeforeUnload c st)) =
     (if \<not> o_gameOver c \<and> connected c
      then (case opponentId c of None \<Rightarrow> [] | Some opp \<Rightarrow> [ODefeat opp]) else [])"
  "fst (snd (handleBeforeUnload c st)) ''game_in_progress'' = None"
  by (simp_all add: handleBeforeUnload_def Let_def)

text \<open>
  C7, as stated, fails: a page started while the stored flag of a round in progress is
  set writes no elimination; it subscribes to the round like any other start, in both
  sources.
\<close>

theorem reload_rejoins_counterexample:
  "storage reload_with_flag ''game_in_progress'' = Some ''true'' \<and>
   writes_made (omok_init setupFirebaseSync reload_with_flag) = [] \<and>
   navigates_to (omok_init setupFirebaseSync reload_with_flag) = None \<and>
   roomListenerAttached (client_after (omok_init setupFirebaseSync reload_with_flag)) \<and>
   gameListenerAttached (client_after (omok_init setupFirebaseSync reload_with_flag)) \<and>
   o_gameOver (client_after (omok_init setupFirebaseSync reload_with_flag)) = False \<and>
   writes_made (omok_init subscribe_game_only reload_with_flag) = [] \<and>
   gameListenerAttached (client_after (omok_init subscribe_game_only reload_with_flag))"
  by (simp add: reload_with_flag_def omok_init_def getPlayerId_def getPlayerName_def
      blank_client_def setupFirebaseSync_def subscribe_game_only_def Let_def)

text \<open>
  C7, amended: the start of the Omok page never reads the stored flag of a round in
  progress. It writes nothing to the store; the client it leaves and the page it may
  navigate to are the same whatever the flag was; a start that reaches the database sets
  the flag and subscribes. The defeat of a player who leaves or reloads is written when
  the page is left: if the round is not over and the client is connected and knows its
  opponent, \<^verbatim>\<open>handleBeforeUnload\<close> writes the game as over with the opponent as
  winner, and it removes the flag.
\<close>

theorem omok_start_ignores_flag:
  "writes_made (omok_init sub p) = [] \<and>
   client_after (omok_init sub (with_flag p v)) = client_after (omok_init sub p) \<and>
   navigates_to (omok_init sub (with_flag p v)) = navigates_to (omok_init sub p) \<and>
   (joins p \<longrightarrow>
      storage_after (omok_init sub p) ''game_in_progress'' = Some ''true'' \<and>
      navigates_to (omok_init sub p) = None \<and>
      client_after (omok_init sub p) =
        sub (blank_client\<lparr>o_roomId := url_room p, o_playerId := fst (getPlayerId p),
              o_playerName := getPlayerName (snd (getPlayerId p)), connected := True\<rparr>)) \<and>
   snd (snd (handleBeforeUnload c st)) =
     (if \<not> o_gameOver c \<and> connected c
      then (case opponentId c of None \<Rightarrow> [] | Some opp \<Rightarrow> [ODefeat opp]) else []) \<and>
   fst (snd (handleBeforeUnload c st)) ''game_in_progress'' = None"
  using omok_init_no_write[of sub p] omok_init_flag_blind[of sub p v] omok_init_joins[of p sub]
    unload_writes[of c st]
  by simp

theorem omok_start_ignores_flag_witness:
  "joins reload_with_flag \<and>
   writes_made (omok_init setupFirebaseSync reload_with_flag) = [] \<and>
   client_after (omok_init setupFirebaseSync (with_flag reload_with_flag None))
     = client_after (omok_init setupFirebaseSync reload_with_flag) \<and>
   storage_after (omok_init setupFirebaseSync reload_with_flag) ''game_in_progress'' = Some ''true'' \<and>
   navigates_to (omok_init setupFirebaseSync reload_with_flag) = None \<and>
   snd (snd (handleBeforeUnload omok_midgame (storage reload_with_flag))) = [ODefeat ''p2'']"
proof -
  have j: "joins reload_with_flag"
    by (simp add: joins_def reload_with_flag_def getPlayerId_def getPlayerName_def)
  have m: "\<not> o_gameOver omok_midgame" "connected omok_midgame" "opponentId omok_midgame = Some ''p2''"
    by (simp_all add: omok_midgame_def omok_host_def blank_client_def)
  show ?thesis
    using omok_start_ignores_flag[of setupFirebaseSync reload_with_flag None omok_midgame
        "storage reload_with_flag"] j m
    by simp
qed

section \<open>The alive flag within a round\<close>

subsection \<open>The store under benign writes\<close>





subsection \<open>What each handler writes\<close>


lemma finishGame_benign: "list_all benign (finishGame c)"
  by (simp add: finishGame_def benign_def)





subsection \<open>What each handler does to the client's picture\<close>

lemma add_room_player_alive:
  "local_alive (c\<lparr>players := add_room_player (players c) rp\<rparr>) pid =
     (case local_alive c pid of
        None \<Rightarrow> if pid = rp_id rp then Some (Some True) else None
      | Some a \<Rightarrow> Some a)"
  by (auto simp: local_alive_def add_room_player_def update_conv' split: option.splits)






lemma handleGameOver_players [simp]: "players (handleGameOver c rs) = players c"
  by (simp add: handleGameOver_def)




subsection \<open>The contract of one client step\<close>








subsection \<open>One step of the system\<close>











section \<open>The bomb arena: rays, placement and detonation\<close>

lemma truncated_Cons:
  "truncated a (q # rest) =
     (if passable a q then q # truncated a rest else if absorbing a q then [q] else [])"
  by (simp add: truncated_def)

lemma ray_truncated: "ray a p d n = truncated a (line_from p d n)"
proof (induction n arbitrary: p)
  case 0
  then show ?case by (simp add: truncated_def)
next
  case (Suc n)
  show ?case
  proof (cases "tileAt a (step_from p d)")
    case None
    then show ?thesis by (simp add: truncated_Cons passable_def absorbing_def Let_def)
  next
    case (Some t)
    then show ?thesis using Suc.IH[of "step_from p d"]
      by (cases t) (simp_all add: truncated_Cons passable_def absorbing_def Let_def)
  qed
qed

lemma truncated_prefix: "prefix (truncated a l) l"
  by (induction l) (simp_all add: truncated_Cons truncated_def)

lemma length_line_from [simp]: "length (line_from p d n) = n"
  by (induction n arbitrary: p) simp_all

lemma truncated_inner_passable: "list_all (passable a) (butlast (truncated a l))"
proof (induction l)
  case Nil
  then show ?case by (simp add: truncated_def)
next
  case (Cons q rest)
  then show ?case
    by (cases "truncated a rest") (auto simp: truncated_Cons)
qed

lemma truncated_no_solid: "list_all (\<lambda>q. passable a q \<or> absorbing a q) (truncated a l)"
  by (induction l) (simp_all add: truncated_Cons truncated_def)

lemma truncated_stops:
  "length (truncated a l) < length l \<Longrightarrow>
     (truncated a l \<noteq> [] \<and> absorbing a (last (truncated a l))) \<or>
     \<not> passable a (l ! length (truncated a l)) \<and> \<not> absorbing a (l ! length (truncated a l))"
proof (induction l)
  case Nil
  then show ?case by simp
next
  case (Cons q rest)
  show ?case
  proof (cases "passable a q")
    case True
    then have "length (truncated a rest) < length rest" using Cons.prems by (simp add: truncated_Cons)
    from Cons.IH[OF this] show ?thesis using True by (auto simp: truncated_Cons)
  next
    case False
    then show ?thesis by (simp add: truncated_Cons)
  qed
qed

lemma scenario_b_tiles:
  "e_tiles (last (a_explosions (detonate (placeBomb open_arena ''p1'' 0) 0 2500 spawn)))
     = [(5, 5), (4, 5), (3, 5), (6, 5), (7, 5), (5, 4), (5, 3), (5, 6), (5, 7)]"
  by code_simp

lemma ray_depends:
  "a_map a = a_map a' \<Longrightarrow> a_bombs a = a_bombs a' \<Longrightarrow> ray a p d n = ray a' p d n"
proof (induction n arbitrary: p)
  case 0
  then show ?case by simp
next
  case (Suc n)
  have t: "tileAt a q = tileAt a' q" and o: "occupied a q = occupied a' q" for q
    using Suc.prems by (simp_all add: tileAt_def occupied_def bomb_at_def Let_def)
  show ?case using Suc.IH[OF Suc.prems] by (simp add: t o Let_def split: option.splits tile.splits)
qed

lemma destroy_keeps [simp]:
  "a_bombs (destroy a q) = a_bombs a" "a_players (destroy a q) = a_players a"
  "a_explosions (destroy a q) = a_explosions a" "a_chain (destroy a q) = a_chain a"
  "a_item_spawns (destroy a q) = a_item_spawns a" "a_next_id (destroy a q) = a_next_id a"
  by (simp_all add: destroy_def)

lemma destroy_all_keeps [simp]:
  "a_bombs (foldl destroy a qs) = a_bombs a" "a_players (foldl destroy a qs) = a_players a"
  "a_explosions (foldl destroy a qs) = a_explosions a" "a_chain (foldl destroy a qs) = a_chain a"
  "a_item_spawns (foldl destroy a qs) = a_item_spawns a" "a_next_id (foldl destroy a qs) = a_next_id a"
  by (induction qs arbitrary: a) simp_all

lemma trap_players_count:
  "map_option bp_activeBombs (map_of (trap_players ts now ps) pid)
     = map_option bp_activeBombs (map_of ps pid)"
  by (induction ps) (auto simp: trap_players_def trap_def)

lemma detonate_absent: "bomb_by_id a bid = None \<Longrightarrow> detonate a bid now spawn = a"
  by (simp add: detonate_def)

lemma detonate_bombs:
  "bomb_by_id a bid = Some b \<Longrightarrow>
   a_bombs (detonate a bid now spawn) = filter (\<lambda>x. b_id x \<noteq> bid) (a_bombs a)"
  by (simp add: detonate_def Let_def)

lemma find_removed: "find (\<lambda>b. b_id b = bid) (filter (\<lambda>x. b_id x \<noteq> bid) bs) = None"
  by (induction bs) auto

lemma detonate_gone:
  "bomb_by_id (detonate a bid now spawn) bid = None"
proof (cases "bomb_by_id a bid")
  case None
  then show ?thesis by (simp add: detonate_absent)
next
  case (Some b)
  show ?thesis unfolding bomb_by_id_def detonate_bombs[OF Some] by (rule find_removed)
qed

lemma detonate_idem:
  "detonate (detonate a bid now spawn) bid now' spawn' = detonate a bid now spawn"
  by (rule detonate_absent[OF detonate_gone])

lemma detonate_count:
  assumes "bomb_by_id a bid = Some b"
  shows "activeBombs (detonate a bid now spawn) pid =
           (if pid = b_owner b \<and> map_of (a_players a) pid \<noteq> None
            then activeBombs a pid - 1 else activeBombs a pid)"
proof -
  let ?ps1 = "case map_of (a_players a) (b_owner b) of None \<Rightarrow> a_players a
              | Some p \<Rightarrow> AList.update (b_owner b) (p\<lparr>bp_activeBombs := bp_activeBombs p - 1\<rparr>) (a_players a)"
  have "\<exists>ts. a_players (detonate a bid now spawn) = trap_players ts now ?ps1"
    using assms by (auto simp: detonate_def Let_def)
  then obtain ts where ts: "a_players (detonate a bid now spawn) = trap_players ts now ?ps1" ..
  have "map_option bp_activeBombs (map_of (a_players (detonate a bid now spawn)) pid)
        = map_option bp_activeBombs (map_of ?ps1 pid)"
    unfolding ts by (rule trap_players_count)
  then show ?thesis
    by (cases "map_of (a_players a) (b_owner b)"; cases "map_of (a_players a) pid";
        cases "map_of (a_players (detonate a bid now spawn)) pid")
       (auto simp: activeBombs_def update_conv' split: if_splits)
qed

lemma find_Some_D: "find P xs = Some x \<Longrightarrow> x \<in> set xs \<and> P x"
  by (induction xs) (auto split: if_splits)

lemma detonate_clears_tile:
  assumes "wf_bombs a" "bomb_by_id a bid = Some b"
  shows "\<not> occupied (detonate a bid now spawn) (b_pos b)"
proof -
  have b: "b \<in> set (a_bombs a)" "b_id b = bid"
    using find_Some_D[of "\<lambda>b. b_id b = bid" "a_bombs a" b] assms(2) by (simp_all add: bomb_by_id_def)
  have inj: "inj_on b_pos (set (a_bombs a))"
    using assms(1) by (simp add: wf_bombs_def distinct_map)
  have "\<not> (\<exists>x \<in> set (filter (\<lambda>x. b_id x \<noteq> bid) (a_bombs a)). b_pos x = b_pos b)"
  proof
    assume "\<exists>x \<in> set (filter (\<lambda>x. b_id x \<noteq> bid) (a_bombs a)). b_pos x = b_pos b"
    then obtain x where x: "x \<in> set (a_bombs a)" "b_id x \<noteq> bid" "b_pos x = b_pos b" by auto
    then have "x = b" using inj b(1) by (auto dest: inj_onD)
    then show False using x(2) b(2) by simp
  qed
  then have "find (\<lambda>x. b_pos x = b_pos b) (filter (\<lambda>x. b_id x \<noteq> bid) (a_bombs a)) = None"
    by (simp add: find_None_iff)
  then show ?thesis by (simp add: occupied_def bomb_at_def detonate_bombs[OF assms(2)])
qed

lemma place_rejected:
  "map_of (a_players a) pid = Some p \<Longrightarrow> rejected a p \<Longrightarrow> placeBomb a pid now = a"
  by (auto simp: placeBomb_def rejected_def)

lemma place_unknown: "map_of (a_players a) pid = None \<Longrightarrow> placeBomb a pid now = a"
  by (simp add: placeBomb_def)

lemma place_accepted:
  assumes "map_of (a_players a) pid = Some p" "\<not> rejected a p"
  shows "a_bombs (placeBomb a pid now) =
           a_bombs a @ [\<lparr>b_id = a_next_id a, b_pos = bp_tile p, b_owner = pid,
                         b_power = bp_power p, b_placedAt = now, b_escaped = []\<rparr>]"
    and "a_next_id (placeBomb a pid now) = Suc (a_next_id a)"
    and "activeBombs (placeBomb a pid now) pid = activeBombs a pid + 1"
    and "occupied (placeBomb a pid now) (bp_tile p)"
    and "a_explosions (placeBomb a pid now) = a_explosions a"
  using assms
  by (auto simp: placeBomb_def rejected_def activeBombs_def update_conv' occupied_def bomb_at_def
      find_None_iff)

lemma wf_place: "wf_bombs a \<Longrightarrow> wf_bombs (placeBomb a pid now)"
proof (cases "map_of (a_players a) pid")
  case None
  assume "wf_bombs a"
  then show ?thesis using None by (simp add: place_unknown)
next
  case (Some p)
  assume wf: "wf_bombs a"
  show ?thesis
  proof (cases "rejected a p")
    case True
    then show ?thesis using wf Some by (simp add: place_rejected)
  next
    case False
    have free: "\<not> occupied a (bp_tile p)" using False by (simp add: rejected_def)
    then have nopos: "bp_tile p \<notin> b_pos ` set (a_bombs a)"
      by (auto simp: occupied_def bomb_at_def find_None_iff)
    have noid: "a_next_id a \<notin> b_id ` set (a_bombs a)"
      using wf by (auto simp: wf_bombs_def list_all_iff)
    show ?thesis
      using wf nopos noid unfolding wf_bombs_def place_accepted(1,2)[OF Some False]
      by (auto simp: list_all_iff less_Suc_eq)
  qed
qed

lemma wf_detonate: "wf_bombs a \<Longrightarrow> wf_bombs (detonate a bid now spawn)"
proof (cases "bomb_by_id a bid")
  case None
  assume "wf_bombs a"
  then show ?thesis using None by (simp add: detonate_absent)
next
  case (Some b)
  assume wf: "wf_bombs a"
  have n: "a_next_id (detonate a bid now spawn) = a_next_id a"
    using Some by (simp add: detonate_def Let_def)
  show ?thesis using wf unfolding wf_bombs_def detonate_bombs[OF Some] n
    by (auto simp: distinct_map_filter list_all_iff)
qed

lemma find_snoc:
  "find P (xs @ [x]) = (case find P xs of Some y \<Rightarrow> Some y | None \<Rightarrow> if P x then Some x else None)"
  by (induction xs) auto

lemma placed_bomb_found:
  assumes "wf_bombs a" "map_of (a_players a) pid = Some p" "\<not> rejected a p"
  shows "bomb_by_id (placeBomb a pid now) (a_next_id a) =
           Some \<lparr>b_id = a_next_id a, b_pos = bp_tile p, b_owner = pid,
                 b_power = bp_power p, b_placedAt = now, b_escaped = []\<rparr>"
proof -
  have "find (\<lambda>b. b_id b = a_next_id a) (a_bombs a) = None"
    using assms(1) by (auto simp: wf_bombs_def list_all_iff find_None_iff)
  then show ?thesis
    unfolding bomb_by_id_def place_accepted(1)[OF assms(2,3)]
    by (simp add: find_snoc)
qed

lemma detonate_explosions:
  "bomb_by_id a bid = Some b \<Longrightarrow>
   a_explosions (detonate a bid now spawn) =
     a_explosions a @
       [\<lparr>e_tiles = b_pos b # concat (map (\<lambda>d. ray (without_bomb a bid) (b_pos b) d (b_power b)) directions),
         e_createdAt = now\<rparr>]"
proof -
  assume b: "bomb_by_id a bid = Some b"
  have r: "ray (a\<lparr>a_players := ps, a_bombs := filter (\<lambda>x. b_id x \<noteq> bid) (a_bombs a)\<rparr>) q d n
           = ray (without_bomb a bid) q d n" for ps q d n
    by (rule ray_depends) (simp_all add: without_bomb_def)
  show ?thesis using b by (simp add: detonate_def Let_def blast_tiles_def r)
qed

text \<open>
  C8 (on the model made from the specification): with a well-formed live set, a placement
  by a player who is dead or trapped, has as many active bombs as allowed, or stands on a
  tile that holds a bomb leaves the arena unchanged. An accepted placement makes the
  player's tile occupied and raises the player's active-bomb counter by one. Detonating
  that bomb clears the tile, brings the counter back to what it was and records one
  explosion. Detonating the same id again changes nothing, and so does detonating any id
  that is not live.
\<close>

theorem bomb_lifecycle:
  assumes "wf_bombs a" and "map_of (a_players a) pid = Some p"
  shows
    "(rejected a p \<longrightarrow> placeBomb a pid now = a) \<and>
     (\<not> rejected a p \<longrightarrow>
        occupied (placeBomb a pid now) (bp_tile p) \<and>
        activeBombs (placeBomb a pid now) pid = activeBombs a pid + 1 \<and>
        \<not> occupied (detonate (placeBomb a pid now) (a_next_id a) t spawn) (bp_tile p) \<and>
        activeBombs (detonate (placeBomb a pid now) (a_next_id a) t spawn) pid = activeBombs a pid \<and>
        length (a_explosions (detonate (placeBomb a pid now) (a_next_id a) t spawn))
          = Suc (length (a_explosions a)) \<and>
        detonate (detonate (placeBomb a pid now) (a_next_id a) t spawn) (a_next_id a) t' spawn'
          = detonate (placeBomb a pid now) (a_next_id a) t spawn) \<and>
     detonate (detonate a bid t spawn) bid t' spawn' = detonate a bid t spawn \<and>
     (bomb_by_id a bid = None \<longrightarrow> detonate a bid t spawn = a)"
proof -
  have rej: "placeBomb a pid now = a" if "rejected a p"
    using place_rejected[OF assms(2) that] .
  have acc: "occupied (placeBomb a pid now) (bp_tile p) \<and>
        activeBombs (placeBomb a pid now) pid = activeBombs a pid + 1 \<and>
        \<not> occupied (detonate (placeBomb a pid now) (a_next_id a) t spawn) (bp_tile p) \<and>
        activeBombs (detonate (placeBomb a pid now) (a_next_id a) t spawn) pid = activeBombs a pid \<and>
        length (a_explosions (detonate (placeBomb a pid now) (a_next_id a) t spawn))
          = Suc (length (a_explosions a))"
    if nr: "\<not> rejected a p"
  proof -
    let ?a1 = "placeBomb a pid now"
    let ?b = "\<lparr>b_id = a_next_id a, b_pos = bp_tile p, b_owner = pid,
                 b_power = bp_power p, b_placedAt = now, b_escaped = []\<rparr>"
    note pa = place_accepted[OF assms(2) nr, of now]
    have live: "bomb_by_id ?a1 (a_next_id a) = Some ?b"
      by (rule placed_bomb_found[OF assms nr])
    have wf1: "wf_bombs ?a1" by (rule wf_place[OF assms(1)])
    have known: "map_of (a_players ?a1) pid \<noteq> None"
      using assms(2) nr by (simp add: placeBomb_def rejected_def update_conv')
    have clear: "\<not> occupied (detonate ?a1 (a_next_id a) t spawn) (bp_tile p)"
      using detonate_clears_tile[OF wf1 live, of t spawn] by simp
    have cnt: "activeBombs (detonate ?a1 (a_next_id a) t spawn) pid = activeBombs a pid"
      using detonate_count[OF live, of t spawn pid] known pa(3) by simp
    have ex: "length (a_explosions (detonate ?a1 (a_next_id a) t spawn)) = Suc (length (a_explosions a))"
      unfolding detonate_explosions[OF live] by (simp add: pa(5))
    show ?thesis using pa(3,4) clear cnt ex by simp
  qed
  show ?thesis using rej acc detonate_idem detonate_absent by blast
qed

lemma open_arena_facts:
  "wf_bombs open_arena" "map_of (a_players open_arena) ''p1'' = Some bomber"
  "\<not> rejected open_arena bomber" "a_next_id open_arena = 0" "activeBombs open_arena ''p1'' = 0"
  "bp_tile bomber = (5, 5)"
  by code_simp+

lemma placed_once_facts:
  "wf_bombs placed_once"
  "map_of (a_players placed_once) ''p1'' = Some (bomber\<lparr>bp_activeBombs := 1\<rparr>)"
  "rejected placed_once (bomber\<lparr>bp_activeBombs := 1\<rparr>)"
  by code_simp+

theorem bomb_lifecycle_witness:
  "wf_bombs open_arena \<and> map_of (a_players open_arena) ''p1'' = Some bomber \<and>
   \<not> rejected open_arena bomber \<and>
   occupied (placeBomb open_arena ''p1'' 0) (5, 5) \<and>
   activeBombs (placeBomb open_arena ''p1'' 0) ''p1'' = 1 \<and>
   \<not> occupied (detonate (placeBomb open_arena ''p1'' 0) 0 2500 no_items) (5, 5) \<and>
   activeBombs (detonate (placeBomb open_arena ''p1'' 0) 0 2500 no_items) ''p1'' = 0 \<and>
   detonate (detonate (placeBomb open_arena ''p1'' 0) 0 2500 no_items) 0 2600 no_items
     = detonate (placeBomb open_arena ''p1'' 0) 0 2500 no_items \<and>
   wf_bombs placed_once \<and>
   map_of (a_players placed_once) ''p1'' = Some (bomber\<lparr>bp_activeBombs := 1\<rparr>) \<and>
   rejected placed_once (bomber\<lparr>bp_activeBombs := 1\<rparr>) \<and>
   placeBomb placed_once ''p1'' 100 = placed_once"
  using bomb_lifecycle[OF open_arena_facts(1,2), of 0 2500 no_items 2600 no_items 0]
    bomb_lifecycle[OF placed_once_facts(1,2), of 100 0 no_items 0 no_items 0]
    open_arena_facts placed_once_facts
  by simp

lemma tile_not_solid: "passable a q \<or> absorbing a q \<Longrightarrow> tileAt a q \<noteq> Some SolidWall"
  by (auto simp: passable_def absorbing_def)

text \<open>
  C9 (on the model made from the specification): a ray is the straight line from the bomb
  cut before the first SolidWall and after the first BreakableWall or bomb; it is a prefix
  of that line of at most \<open>pw\<close> tiles, holds no SolidWall, and only its last tile can
  be a wall or a bomb. The explosion of a live bomb is its own tile and its four rays,
  cast without the bomb itself. With blast power 2 on (5, 5) in the open arena the
  explosion is exactly the nine tiles of scenario B.
\<close>

theorem explosion_ray_prefix:
  "ray a p d pw = truncated a (line_from p d pw) \<and>
   prefix (ray a p d pw) (line_from p d pw) \<and>
   length (ray a p d pw) \<le> pw \<and>
   list_all (\<lambda>q. tileAt a q \<noteq> Some SolidWall) (ray a p d pw) \<and>
   list_all (passable a) (butlast (ray a p d pw)) \<and>
   (bomb_by_id a bid = Some b \<longrightarrow>
      e_tiles (last (a_explosions (detonate a bid now spawn)))
        = b_pos b # concat (map (\<lambda>d. ray (without_bomb a bid) (b_pos b) d (b_power b)) directions)) \<and>
   set (e_tiles (last (a_explosions (detonate (placeBomb open_arena ''p1'' 0) 0 2500 spawn))))
     = {(5, 5), (4, 5), (3, 5), (6, 5), (7, 5), (5, 4), (5, 3), (5, 6), (5, 7)}"
proof -
  have pre: "prefix (ray a p d pw) (line_from p d pw)"
    unfolding ray_truncated by (rule truncated_prefix)
  have len: "length (ray a p d pw) \<le> pw"
    using prefix_length_le[OF pre] by simp
  have ns: "list_all (\<lambda>q. tileAt a q \<noteq> Some SolidWall) (ray a p d pw)"
    unfolding ray_truncated using truncated_no_solid[of a "line_from p d pw"]
    by (auto simp: list_all_iff passable_def absorbing_def)
  have inner: "list_all (passable a) (butlast (ray a p d pw))"
    unfolding ray_truncated by (rule truncated_inner_passable)
  have ex: "e_tiles (last (a_explosions (detonate a bid now spawn)))
        = b_pos b # concat (map (\<lambda>d. ray (without_bomb a bid) (b_pos b) d (b_power b)) directions)"
    if "bomb_by_id a bid = Some b"
    unfolding detonate_explosions[OF that] by simp
  show ?thesis using ray_truncated[of a p d pw] pre len ns inner ex scenario_b_tiles[of spawn]
    by auto
qed

lemma walled_facts:
  "ray walled_arena (5, 5) (1, 0) 2 = [(6, 5)]"
  "line_from (5, 5) (1, 0) 2 = [(6, 5), (7, 5)]"
  "tileAt walled_arena (6, 5) = Some BreakableWall"
  "bomb_by_id (placeBomb walled_arena ''p1'' 0) 0
     = Some \<lparr>b_id = 0, b_pos = (5, 5), b_owner = ''p1'', b_power = 2, b_placedAt = 0, b_escaped = []\<rparr>"
  by code_simp+

theorem explosion_ray_prefix_witness:
  "bomb_by_id (placeBomb walled_arena ''p1'' 0) 0
     = Some \<lparr>b_id = 0, b_pos = (5, 5), b_owner = ''p1'', b_power = 2, b_placedAt = 0, b_escaped = []\<rparr> \<and>
   tileAt walled_arena (6, 5) = Some BreakableWall \<and>
   ray walled_arena (5, 5) (1, 0) 2 = [(6, 5)] \<and>
   prefix [(6, 5)] (line_from (5, 5) (1, 0) 2) \<and>
   e_tiles (last (a_explosions (detonate (placeBomb walled_arena ''p1'' 0) 0 2500 no_items)))
     = (5, 5) # concat (map (\<lambda>d. ray (without_bomb (placeBomb walled_arena ''p1'' 0) 0) (5, 5) d 2) directions)"
proof -
  have p: "prefix (ray walled_arena (5, 5) (1, 0) 2) (line_from (5, 5) (1, 0) 2)"
    using explosion_ray_prefix[of walled_arena "(5, 5)" "(1, 0)" 2] by blast
  have e: "e_tiles (last (a_explosions (detonate (placeBomb walled_arena ''p1'' 0) 0 2500 no_items)))
     = (5, 5) # concat (map (\<lambda>d. ray (without_bomb (placeBomb walled_arena ''p1'' 0) 0) (5, 5) d 2) directions)"
    using explosion_ray_prefix[of "placeBomb walled_arena ''p1'' 0" "(5, 5)" "(1, 0)" 2 0
      "\<lparr>b_id = 0, b_pos = (5, 5), b_owner = ''p1'', b_power = 2, b_placedAt = 0, b_escaped = []\<rparr>"
      2500 no_items] walled_facts(4)
    by simp
  have p': "prefix [(6, 5)] (line_from (5, 5) (1, 0) 2)"
    using p unfolding walled_facts(1) .
  show ?thesis using p' e walled_facts(1,3,4) by (intro conjI)
qed

end
